theory Spec2Isabelle
  imports Main "HOL-Library.Multiset"
begin

section \<open>Routine items and their table\<close>

text \<open>
  The module \<open>model_routine.py\<close> declares the Django model \<open>RoutineItem\<close> and overrides
  its \<open>save\<close> and \<open>delete\<close> so that the \<open>priority\<close> column of the items of one routine
  stays an unbroken run \<open>1..N\<close>.  A model instance is a record of its fields; the primary key
  is absent (\<open>None\<close>) until the first write, the routine is the key of the \<open>Routine\<close> row the
  item points to, and the priority is nullable as the field declares (\<open>null=True\<close>).
  Python integers are unbounded, so a priority is an \<open>int\<close>.  The two timestamp columns
  hold wall-clock time and play no part in the ordering; they are left out.  The column
  constraints a database backend attaches to the field (non-negativity, integer width) belong
  to the store and are not modelled.
\<close>

record routine_item =
  pk :: "nat option"
  routine :: nat
  title :: string
  description :: "string option"
  is_active :: bool
  priority :: "int option"

text \<open>The table \<open>RoutineItem.objects\<close>: the persisted rows, in insertion order.\<close>

type_synonym table = "routine_item list"

text \<open>
  The exceptions that can leave \<open>save\<close> and \<open>delete\<close>.  Both run inside
  \<open>transaction.atomic()\<close>, so an exception rolls every write of the call back: the result
  \<open>Inl e\<close> carries no table because the table is the one the call started from.
  \<^item> \<open>ValueError\<close>: a lookup such as \<open>priority__gt=None\<close> (Django refuses \<open>None\<close> as a
    query value), or deleting an instance that has no primary key;
  \<^item> \<open>TypeError\<close>: Python's \<open>int < None\<close>.
\<close>

datatype error = ValueError | TypeError

section \<open>The store operations the model code calls\<close>

text \<open>
  \<open>filter(routine=R).aggregate(Max('priority'))['priority__max']\<close>: the largest non-null
  priority among the rows of routine \<open>R\<close>, \<open>None\<close> when there is none.
\<close>

definition aggregate_max :: "nat \<Rightarrow> table \<Rightarrow> int option" where
  "aggregate_max R rows =
     (case List.map_filter priority (filter (\<lambda>r. routine r = R) rows) of
        [] \<Rightarrow> None
      | p # ps \<Rightarrow> Some (fold max ps p))"

text \<open>Python's \<open>max_p or 0\<close>: \<open>None\<close> and \<open>0\<close> are falsy.\<close>

definition or_zero :: "int option \<Rightarrow> int" where
  "or_zero max_p = (case max_p of None \<Rightarrow> 0 | Some m \<Rightarrow> if m = 0 then 0 else m)"

text \<open>
  \<open>filter(routine=R, <lookups on priority>).update(priority=F('priority') + d)\<close>: one bulk
  statement.  The lookups \<open>priority__gte\<close>, \<open>priority__gt\<close>, \<open>priority__lt\<close>,
  \<open>priority__lte\<close> are given as the predicate \<open>sel\<close> on the column value; a row whose
  priority is NULL matches no comparison.  No other column is written.
\<close>

definition bulk_shift :: "nat \<Rightarrow> (int \<Rightarrow> bool) \<Rightarrow> int \<Rightarrow> table \<Rightarrow> table" where
  "bulk_shift R sel d rows =
     map (\<lambda>r. case priority r of
                 None \<Rightarrow> r
               | Some q \<Rightarrow> if routine r = R \<and> sel q then r\<lparr>priority := Some (q + d)\<rparr> else r)
         rows"

text \<open>\<open>RoutineItem.objects.get(pk=k)\<close>; \<open>None\<close> stands for \<open>DoesNotExist\<close>.\<close>

definition objects_get :: "nat \<Rightarrow> table \<Rightarrow> routine_item option" where
  "objects_get k rows = find (\<lambda>r. pk r = Some k) rows"

text \<open>The key an auto-increment column hands out: above every key in use.\<close>

definition new_pk :: "table \<Rightarrow> nat" where
  "new_pk rows = Suc (fold max (List.map_filter pk rows) 0)"

text \<open>
  \<open>super().save()\<close>, the row write of \<open>models.Model\<close>: an instance without a primary key
  is inserted under a new key; an instance with a key overwrites the row of that key, and is
  inserted under its key when no such row exists.  The instance comes back with its key set.
\<close>

definition super_save :: "routine_item \<Rightarrow> table \<Rightarrow> routine_item \<times> table" where
  "super_save self rows =
     (case pk self of
        None \<Rightarrow> (let self = self\<lparr>pk := Some (new_pk rows)\<rparr> in (self, rows @ [self]))
      | Some k \<Rightarrow>
          if \<exists>r \<in> set rows. pk r = Some k
          then (self, map (\<lambda>r. if pk r = Some k then self else r) rows)
          else (self, rows @ [self]))"

text \<open>
  \<open>super().delete()\<close>: removes the row of the instance's key; Django raises when the
  instance has no key.
\<close>

definition super_delete :: "routine_item \<Rightarrow> table \<Rightarrow> error + table" where
  "super_delete self rows =
     (case pk self of
        None \<Rightarrow> Inl ValueError
      | Some k \<Rightarrow> Inr (filter (\<lambda>r. pk r \<noteq> Some k) rows))"

section \<open>\<open>RoutineItem.save\<close> and \<open>RoutineItem.delete\<close>\<close>

text \<open>
  \<open>save\<close> follows the method branch by branch.  Its first step, the title clean-up, is
  \<open>capitalize_title\<close>; the argument \<open>strip_title\<close> stands for the string method chain
  \<open>.strip().title()\<close> of the Python library.  The result of \<open>save\<close> is the instance as
  the method leaves it (title cleaned, priority and key assigned) and the table after the call.
\<close>

definition capitalize_title :: "(string \<Rightarrow> string) \<Rightarrow> routine_item \<Rightarrow> routine_item" where
  "capitalize_title strip_title self =
     (if title self \<noteq> [] then self\<lparr>title := strip_title (title self)\<rparr> else self)"

definition save ::
  "(string \<Rightarrow> string) \<Rightarrow> routine_item \<Rightarrow> table \<Rightarrow> error + (routine_item \<times> table)" where
  "save strip_title self rows =
     (let self = capitalize_title strip_title self
      in case pk self of
        None \<Rightarrow>
          (case priority self of
             None \<Rightarrow>
               (let max_p = aggregate_max (routine self) rows;
                    self = self\<lparr>priority := Some (or_zero max_p + 1)\<rparr>
                in Inr (super_save self rows))
           | Some p \<Rightarrow>
               (let rows = bulk_shift (routine self) (\<lambda>q. p \<le> q) 1 rows
                in Inr (super_save self rows)))
      | Some k \<Rightarrow>
          (case objects_get k rows of
             None \<Rightarrow> Inr (super_save self rows)
           | Some old_instance \<Rightarrow>
               if routine old_instance \<noteq> routine self then
                 (case priority old_instance of
                    None \<Rightarrow> Inl ValueError
                  | Some old_p \<Rightarrow>
                      (let rows = bulk_shift (routine old_instance) (\<lambda>q. old_p < q) (- 1) rows
                       in case priority self of
                         None \<Rightarrow>
                           (let max_p = aggregate_max (routine self) rows;
                                self = self\<lparr>priority := Some (or_zero max_p + 1)\<rparr>
                            in Inr (super_save self rows))
                       | Some p \<Rightarrow>
                           (let rows = bulk_shift (routine self) (\<lambda>q. p \<le> q) 1 rows
                            in Inr (super_save self rows))))
               else if priority old_instance \<noteq> priority self then
                 (let self =
                        (case priority self of
                           None \<Rightarrow>
                             (let max_p = aggregate_max (routine self) rows
                              in self\<lparr>priority := Some (or_zero max_p + 1)\<rparr>)
                         | Some _ \<Rightarrow> self)
                  in case (priority self, priority old_instance) of
                    (Some p, Some old_p) \<Rightarrow>
                      if p < old_p
                      then Inr (super_save self
                                  (bulk_shift (routine self) (\<lambda>q. p \<le> q \<and> q < old_p) 1 rows))
                      else Inr (super_save self
                                  (bulk_shift (routine self) (\<lambda>q. old_p < q \<and> q \<le> p) (- 1) rows))
                  | _ \<Rightarrow> Inl TypeError)
               else Inr (super_save self rows)))"

text \<open>
  \<open>delete\<close> reads priority and routine off the instance in memory, removes the row, and
  shifts the rows below it up.
\<close>

definition delete :: "routine_item \<Rightarrow> table \<Rightarrow> error + table" where
  "delete self rows =
     (let current_priority = priority self;
          current_routine = routine self
      in case super_delete self rows of
        Inl e \<Rightarrow> Inl e
      | Inr rows \<Rightarrow>
          (case current_priority of
             None \<Rightarrow> Inl ValueError
           | Some p \<Rightarrow> Inr (bulk_shift current_routine (\<lambda>q. p < q) (- 1) rows)))"

section \<open>Dense ordering\<close>

text \<open>The priorities of the rows of routine \<open>R\<close>, in table order.\<close>

definition priorities :: "nat \<Rightarrow> table \<Rightarrow> int option list" where
  "priorities R rows = map priority (filter (\<lambda>r. routine r = R) rows)"

definition count_items :: "nat \<Rightarrow> table \<Rightarrow> nat" where
  "count_items R rows = length (filter (\<lambda>r. routine r = R) rows)"

text \<open>
  Routine \<open>R\<close> is densely ordered: no priority occurs twice, and the priorities are exactly
  \<open>1, ..., count\<close>.
\<close>

definition dense :: "nat \<Rightarrow> table \<Rightarrow> bool" where
  "dense R rows \<longleftrightarrow>
     distinct (priorities R rows) \<and>
     set (priorities R rows) = Some ` {1 .. int (count_items R rows)}"

text \<open>
  What one bulk shift does to a column value: \<open>priorities\<close> of a shifted table is the map of
  this function over the \<open>priorities\<close> of the table.
\<close>

definition shift_opt :: "(int \<Rightarrow> bool) \<Rightarrow> int \<Rightarrow> int option \<Rightarrow> int option" where
  "shift_opt sel d po = (case po of None \<Rightarrow> None | Some q \<Rightarrow> if sel q then Some (q + d) else Some q)"

text \<open>
  What a move within a routine, from priority \<open>a\<close> to priority \<open>b\<close>, does to the column
  value of another row of the routine.
\<close>

definition move_opt :: "int \<Rightarrow> int \<Rightarrow> int option \<Rightarrow> int option" where
  "move_opt a b po =
     (case po of
        None \<Rightarrow> None
      | Some q \<Rightarrow>
          if b \<le> q \<and> q < a then Some (q + 1)
          else if a < q \<and> q \<le> b then Some (q - 1)
          else Some q)"

text \<open>Density of a list of column values.\<close>

definition dense_list :: "int option list \<Rightarrow> bool" where
  "dense_list ps \<longleftrightarrow> distinct ps \<and> set ps = Some ` {1 .. int (length ps)}"

text \<open>The primary key constraint: every row has a key, and no two rows share one.\<close>

definition keyed :: "table \<Rightarrow> bool" where
  "keyed rows \<longleftrightarrow> None \<notin> set (map pk rows) \<and> distinct (map pk rows)"

section \<open>Example tables\<close>

text \<open>
  The scenarios of the specification: a routine \<open>1\<close> with the items A(1), B(2), C(3), D(4)
  and a routine \<open>2\<close> with the single item X(1).
\<close>

definition item :: "nat \<Rightarrow> nat \<Rightarrow> string \<Rightarrow> int \<Rightarrow> routine_item" where
  "item k R t p =
     \<lparr>pk = Some k, routine = R, title = t, description = None, is_active = True,
      priority = Some p\<rparr>"

text \<open>An instance that has not been saved yet: no primary key, priority as the caller left it.\<close>

definition draft :: "nat \<Rightarrow> string \<Rightarrow> int option \<Rightarrow> routine_item" where
  "draft R t po =
     \<lparr>pk = None, routine = R, title = t, description = None, is_active = True, priority = po\<rparr>"

definition planner :: table where
  "planner = [item 1 1 ''A'' 1, item 2 1 ''B'' 2, item 3 1 ''C'' 3, item 4 1 ''D'' 4,
              item 5 2 ''X'' 1]"

section \<open>Density of a list of priorities\<close>

lemma dense_iff: "dense R rows \<longleftrightarrow> dense_list (priorities R rows)"
  by (simp add: dense_def dense_list_def priorities_def count_items_def)

lemma dense_list_mset: "mset ps = mset ps' \<Longrightarrow> dense_list ps = dense_list ps'"
  unfolding dense_list_def
  using mset_eq_imp_distinct_iff [of ps ps'] mset_eq_setD [of ps ps'] mset_eq_length [of ps ps']
  by simp

lemma shift_opt_Some_in:
  "shift_opt sel d (Some q) = (if sel q then Some (q + d) else Some q)"
  by (simp add: shift_opt_def)

lemma shift_opt_None [simp]: "shift_opt sel d None = None"
  by (simp add: shift_opt_def)

lemma dense_list_insert:
  assumes d: "dense_list ps" and lo: "1 \<le> P" and hi: "P \<le> int (length ps) + 1"
  shows "dense_list (map (shift_opt (\<lambda>q. P \<le> q) 1) ps @ [Some P])"
proof -
  let ?f = "shift_opt (\<lambda>q. P \<le> q) 1"
  let ?N = "int (length ps)"
  from d have dist: "distinct ps" and st: "set ps = Some ` {1 .. ?N}"
    by (simp_all add: dense_list_def)
  have inj: "inj_on ?f (set ps)"
    by (auto simp: inj_on_def st shift_opt_Some_in split: if_splits)
  have notin: "Some P \<notin> ?f ` set ps"
    by (auto simp: st shift_opt_Some_in split: if_splits)
  have img: "?f ` set ps \<union> {Some P} = Some ` {1 .. ?N + 1}"
  proof (rule set_eqI)
    fix x
    show "x \<in> ?f ` set ps \<union> {Some P} \<longleftrightarrow> x \<in> Some ` {1 .. ?N + 1}"
    proof
      assume "x \<in> ?f ` set ps \<union> {Some P}"
      then show "x \<in> Some ` {1 .. ?N + 1}"
        using lo hi by (auto simp: st shift_opt_Some_in split: if_splits)
    next
      assume "x \<in> Some ` {1 .. ?N + 1}"
      then obtain q where x: "x = Some q" and q: "1 \<le> q" "q \<le> ?N + 1" by auto
      consider "q < P" | "q = P" | "P < q" by linarith
      then show "x \<in> ?f ` set ps \<union> {Some P}"
      proof cases
        case 1
        then have "Some q \<in> set ps" "?f (Some q) = Some q"
          using q hi by (auto simp: st shift_opt_Some_in)
        then show ?thesis unfolding x by (metis UnI1 imageI)
      next
        case 2 then show ?thesis by (simp add: x)
      next
        case 3
        then have "Some (q - 1) \<in> set ps" "?f (Some (q - 1)) = Some q"
          using q lo by (auto simp: st shift_opt_Some_in)
        then show ?thesis unfolding x by (metis UnI1 imageI)
      qed
    qed
  qed
  show ?thesis
    unfolding dense_list_def using dist inj notin img
    by (simp add: distinct_map Un_commute add.commute)
qed

lemma dense_list_remove:
  assumes d: "dense_list (Some a # w)"
  shows "dense_list (map (shift_opt (\<lambda>q. a < q) (- 1)) w)"
proof -
  let ?f = "shift_opt (\<lambda>q. a < q) (- 1)"
  let ?N = "int (length w)"
  from d have dist: "distinct w" and a_notin: "Some a \<notin> set w"
    and st: "insert (Some a) (set w) = Some ` {1 .. ?N + 1}"
    by (auto simp: dense_list_def add.commute)
  have "Some a \<in> insert (Some a) (set w)" by simp
  then have "Some a \<in> Some ` {1 .. ?N + 1}" unfolding st .
  then have a_range: "1 \<le> a" "a \<le> ?N + 1" by auto
  have mem: "Some q \<in> set w \<longleftrightarrow> 1 \<le> q \<and> q \<le> ?N + 1 \<and> q \<noteq> a" for q
  proof -
    have "Some q \<in> insert (Some a) (set w) \<longleftrightarrow> 1 \<le> q \<and> q \<le> ?N + 1"
      unfolding st by auto
    then show ?thesis using a_notin by auto
  qed
  have noNone: "None \<notin> set w"
    using st by blast
  have inj: "inj_on ?f (set w)"
  proof (rule inj_onI)
    fix x y assume xy: "x \<in> set w" "y \<in> set w" "?f x = ?f y"
    from xy noNone obtain p q where pq: "x = Some p" "y = Some q" by (metis option.exhaust)
    with xy mem show "x = y" by (auto simp: shift_opt_Some_in split: if_splits)
  qed
  have img: "?f ` set w = Some ` {1 .. ?N}"
  proof (rule set_eqI)
    fix x
    show "x \<in> ?f ` set w \<longleftrightarrow> x \<in> Some ` {1 .. ?N}"
    proof
      assume "x \<in> ?f ` set w"
      then obtain y where y: "y \<in> set w" "x = ?f y" by blast
      with noNone obtain q where q: "y = Some q" by (metis option.exhaust)
      with y mem [of q] have q_range: "1 \<le> q" "q \<le> ?N + 1" "q \<noteq> a" by auto
      have "x = Some (if a < q then q - 1 else q)"
        using y q by (simp add: shift_opt_Some_in)
      moreover have "1 \<le> (if a < q then q - 1 else q)" "(if a < q then q - 1 else q) \<le> ?N"
        using q_range a_range by auto
      ultimately show "x \<in> Some ` {1 .. ?N}"
        by (metis atLeastAtMost_iff imageI)
    next
      assume "x \<in> Some ` {1 .. ?N}"
      then obtain q where x: "x = Some q" and q: "1 \<le> q" "q \<le> ?N" by auto
      show "x \<in> ?f ` set w"
      proof (cases "q < a")
        case True
        then have "Some q \<in> set w" "?f (Some q) = Some q"
          using q mem [of q] by (auto simp: shift_opt_Some_in)
        then show ?thesis unfolding x by (metis imageI)
      next
        case False
        then have "Some (q + 1) \<in> set w" "?f (Some (q + 1)) = Some q"
          using q mem [of "q + 1"] by (auto simp: shift_opt_Some_in)
        then show ?thesis unfolding x by (metis imageI)
      qed
    qed
  qed
  show ?thesis
    unfolding dense_list_def using dist inj img
    by (simp add: distinct_map)
qed

section \<open>The table under the store operations\<close>

lemma capitalize_title_fields [simp]:
  "pk (capitalize_title st self) = pk self"
  "routine (capitalize_title st self) = routine self"
  "priority (capitalize_title st self) = priority self"
  "description (capitalize_title st self) = description self"
  "is_active (capitalize_title st self) = is_active self"
  by (simp_all add: capitalize_title_def)

lemma bulk_shift_Nil [simp]: "bulk_shift R sel d [] = []"
  by (simp add: bulk_shift_def)

lemma bulk_shift_append [simp]:
  "bulk_shift R sel d (xs @ ys) = bulk_shift R sel d xs @ bulk_shift R sel d ys"
  by (simp add: bulk_shift_def)

lemma bulk_shift_Cons:
  "bulk_shift R sel d (r # rows) =
     (case priority r of
        None \<Rightarrow> r
      | Some q \<Rightarrow> if routine r = R \<and> sel q then r\<lparr>priority := Some (q + d)\<rparr> else r)
     # bulk_shift R sel d rows"
  by (simp add: bulk_shift_def)

lemma length_bulk_shift [simp]: "length (bulk_shift R sel d rows) = length rows"
  by (simp add: bulk_shift_def)

lemma map_pk_bulk_shift [simp]: "map pk (bulk_shift R sel d rows) = map pk rows"
  by (simp add: bulk_shift_def split: option.splits)

lemma map_routine_bulk_shift [simp]: "map routine (bulk_shift R sel d rows) = map routine rows"
  by (simp add: bulk_shift_def split: option.splits)

lemma pk_set_bulk_shift [simp]: "pk ` set (bulk_shift R sel d rows) = pk ` set rows"
  using map_pk_bulk_shift [of R sel d rows] by (metis set_map)

lemma priorities_Nil [simp]: "priorities R [] = []"
  by (simp add: priorities_def)

lemma priorities_append [simp]: "priorities R (xs @ ys) = priorities R xs @ priorities R ys"
  by (simp add: priorities_def)

lemma priorities_Cons [simp]:
  "priorities R (r # rows) = (if routine r = R then priority r # priorities R rows else priorities R rows)"
  by (simp add: priorities_def)

lemma priorities_bulk_shift:
  "priorities S (bulk_shift R sel d rows) =
     (if S = R then map (shift_opt sel d) (priorities R rows) else priorities S rows)"
  by (induction rows) (auto simp: bulk_shift_Cons shift_opt_def split: option.splits)

lemma filter_other_bulk_shift:
  "filter (\<lambda>r. routine r \<noteq> R) (bulk_shift R sel d rows) = filter (\<lambda>r. routine r \<noteq> R) rows"
  by (induction rows) (auto simp: bulk_shift_Cons split: option.splits)

lemma keyed_split:
  assumes "keyed rows" and "old \<in> set rows" and "pk old = Some k"
  obtains xs ys where "rows = xs @ old # ys"
    and "\<forall>r \<in> set xs. pk r \<noteq> Some k" and "\<forall>r \<in> set ys. pk r \<noteq> Some k"
proof -
  from assms(2) obtain xs ys where split: "rows = xs @ old # ys"
    by (meson split_list)
  from assms(1) have "distinct (map pk (xs @ old # ys))"
    by (simp add: keyed_def split)
  then have "pk old \<notin> pk ` set xs" "pk old \<notin> pk ` set ys"
    by auto
  then have "\<forall>r \<in> set xs. pk r \<noteq> Some k" "\<forall>r \<in> set ys. pk r \<noteq> Some k"
    using assms(3) by force+
  with split show thesis by (rule that)
qed

lemma find_absent: "\<forall>r \<in> set xs. \<not> P r \<Longrightarrow> find P (xs @ ys) = find P ys"
  by (induction xs) auto

lemma objects_get_split:
  "\<forall>r \<in> set xs. pk r \<noteq> Some k \<Longrightarrow> pk old = Some k \<Longrightarrow> objects_get k (xs @ old # ys) = Some old"
  by (simp add: objects_get_def find_absent)

lemma objects_get_None: "objects_get k rows = None \<longleftrightarrow> (\<forall>r \<in> set rows. pk r \<noteq> Some k)"
  by (auto simp: objects_get_def find_None_iff)

lemma super_save_split:
  assumes "\<forall>r \<in> set xs. pk r \<noteq> Some k" "\<forall>r \<in> set ys. pk r \<noteq> Some k"
    and "pk old = Some k" "pk self = Some k"
  shows "super_save self (xs @ old # ys) = (self, xs @ self # ys)"
proof -
  have "map (\<lambda>r. if pk r = Some k then self else r) xs = xs"
       "map (\<lambda>r. if pk r = Some k then self else r) ys = ys"
    using assms(1,2) by (simp_all add: map_idI)
  then show ?thesis
    using assms(3,4) by (simp add: super_save_def)
qed

lemma super_save_new:
  "pk self = None \<Longrightarrow> super_save self rows = (self\<lparr>pk := Some (new_pk rows)\<rparr>, rows @ [self\<lparr>pk := Some (new_pk rows)\<rparr>])"
  by (simp add: super_save_def Let_def)

lemma super_save_missing:
  "pk self = Some k \<Longrightarrow> \<forall>r \<in> set rows. pk r \<noteq> Some k \<Longrightarrow> super_save self rows = (self, rows @ [self])"
  by (auto simp: super_save_def)

lemma set_map_filter: "set (List.map_filter f xs) = {y. \<exists>x \<in> set xs. f x = Some y}"
  by (induction xs) (auto split: option.splits)

lemma aggregate_max_eq:
  "aggregate_max R rows =
     (if {q. Some q \<in> set (priorities R rows)} = {} then None
      else Some (Max {q. Some q \<in> set (priorities R rows)}))"
proof -
  let ?l = "List.map_filter priority (filter (\<lambda>r. routine r = R) rows)"
  have s: "set ?l = {q. Some q \<in> set (priorities R rows)}"
    by (auto simp: set_map_filter priorities_def image_iff) 
  show ?thesis
  proof (cases ?l)
    case Nil
    with s show ?thesis by (simp add: aggregate_max_def)
  next
    case (Cons p ps)
    have "fold max ps p = Max (set (p # ps))" by (simp only: Max.set_eq_fold)
    moreover have "p \<in> {q. Some q \<in> set (priorities R rows)}"
      using s Cons by (metis list.set_intros(1))
    ultimately show ?thesis
      using Cons s by (auto simp add: aggregate_max_def simp del: set_simps)
  qed
qed

lemma new_pk_fresh: "Some (new_pk rows) \<notin> pk ` set rows"
proof
  assume "Some (new_pk rows) \<in> pk ` set rows"
  then have "new_pk rows \<in> set (List.map_filter pk rows)"
    by (auto simp: set_map_filter)
  then have "new_pk rows \<le> Max (set (0 # List.map_filter pk rows))"
    by (intro Max_ge) auto
  also have "\<dots> = fold max (List.map_filter pk rows) 0"
    by (simp only: Max.set_eq_fold)
  finally show False by (simp add: new_pk_def)
qed

section \<open>The branches of \<open>save\<close>\<close>

lemma objects_get_SomeD:
  "objects_get k rows = Some old \<Longrightarrow> old \<in> set rows \<and> pk old = Some k"
  by (auto simp: objects_get_def find_Some_iff)

lemma super_save_map:
  assumes "pk self = Some k" and "\<exists>r \<in> set rows. pk r = Some k" and "\<And>r. pk (g r) = pk r"
  shows "super_save self (map g rows) = (self, map (\<lambda>r. if pk r = Some k then self else g r) rows)"
  using assms by (auto simp: super_save_def)

lemma map_filter_pk_bulk_shift:
  "List.map_filter pk (bulk_shift R sel d rows) = List.map_filter pk rows"
  by (induction rows) (auto simp: bulk_shift_Cons split: option.splits)

lemma new_pk_bulk_shift [simp]: "new_pk (bulk_shift R sel d rows) = new_pk rows"
  by (simp add: new_pk_def map_filter_pk_bulk_shift)

lemma save_create_absent:
  assumes "pk self = None" and "priority self = None"
  shows "save st self rows =
           Inr ((capitalize_title st self)
                  \<lparr>pk := Some (new_pk rows),
                   priority := Some (or_zero (aggregate_max (routine self) rows) + 1)\<rparr>,
                rows @ [(capitalize_title st self)
                  \<lparr>pk := Some (new_pk rows),
                   priority := Some (or_zero (aggregate_max (routine self) rows) + 1)\<rparr>])"
  using assms by (simp add: save_def Let_def super_save_new)

lemma save_create_at:
  assumes "pk self = None" and "priority self = Some p"
  shows "save st self rows =
           Inr ((capitalize_title st self)\<lparr>pk := Some (new_pk rows)\<rparr>,
                bulk_shift (routine self) (\<lambda>q. p \<le> q) 1 rows
                  @ [(capitalize_title st self)\<lparr>pk := Some (new_pk rows)\<rparr>])"
  using assms by (simp add: save_def Let_def super_save_new new_pk_bulk_shift)

lemma save_missing:
  assumes "pk self = Some k" and "objects_get k rows = None"
  shows "save st self rows = Inr (capitalize_title st self, rows @ [capitalize_title st self])"
proof -
  have "\<forall>r \<in> set rows. pk r \<noteq> Some k"
    using assms(2) by (simp only: objects_get_None)
  then show ?thesis
    using assms by (simp add: save_def Let_def super_save_missing)
qed

lemma save_unchanged:
  assumes "pk self = Some k" and "objects_get k rows = Some old"
    and "routine old = routine self" and "priority old = priority self"
  shows "save st self rows =
           Inr (capitalize_title st self,
                map (\<lambda>r. if pk r = Some k then capitalize_title st self else r) rows)"
proof -
  have "\<exists>r \<in> set rows. pk r = Some k"
    using objects_get_SomeD [OF assms(2)] by blast
  then show ?thesis
    using assms by (simp add: save_def Let_def super_save_def)
qed

lemma save_reorder:
  assumes "pk self = Some k" and "objects_get k rows = Some old"
    and "routine old = routine self" and "priority old = Some a" and "priority self = Some b"
  shows "save st self rows =
           Inr (capitalize_title st self,
                map (\<lambda>r. if pk r = Some k then capitalize_title st self
                          else case priority r of
                            None \<Rightarrow> r
                          | Some q \<Rightarrow>
                              if routine r = routine self \<and> b \<le> q \<and> q < a
                              then r\<lparr>priority := Some (q + 1)\<rparr>
                              else if routine r = routine self \<and> a < q \<and> q \<le> b
                              then r\<lparr>priority := Some (q - 1)\<rparr>
                              else r)
                    rows)"
proof -
  have ex: "\<exists>r \<in> set rows. pk r = Some k"
    using objects_get_SomeD [OF assms(2)] by blast
  let ?s = "capitalize_title st self"
  have s: "pk ?s = Some k" by (simp add: assms)
  consider "b < a" | "a < b" | "a = b" by linarith
  then show ?thesis
  proof cases
    case 1
    have "super_save ?s (bulk_shift (routine self) (\<lambda>q. b \<le> q \<and> q < a) 1 rows) =
            (?s, map (\<lambda>r. if pk r = Some k then ?s
                          else case priority r of
                            None \<Rightarrow> r
                          | Some q \<Rightarrow>
                              if routine r = routine self \<and> b \<le> q \<and> q < a
                              then r\<lparr>priority := Some (q + 1)\<rparr> else r) rows)"
      unfolding bulk_shift_def
      by (rule super_save_map [OF s ex]) (simp split: option.splits)
    moreover have "(\<lambda>r. if pk r = Some k then ?s
                          else case priority r of
                            None \<Rightarrow> r
                          | Some q \<Rightarrow>
                              if routine r = routine self \<and> b \<le> q \<and> q < a
                              then r\<lparr>priority := Some (q + 1)\<rparr> else r)
        = (\<lambda>r. if pk r = Some k then ?s
                          else case priority r of
                            None \<Rightarrow> r
                          | Some q \<Rightarrow>
                              if routine r = routine self \<and> b \<le> q \<and> q < a
                              then r\<lparr>priority := Some (q + 1)\<rparr>
                              else if routine r = routine self \<and> a < q \<and> q \<le> b
                              then r\<lparr>priority := Some (q - 1)\<rparr>
                              else r)"
      using 1 by (auto simp: fun_eq_iff split: option.splits)
    ultimately show ?thesis
      using assms 1 by (simp add: save_def Let_def)
  next
    case 2
    have "super_save ?s (bulk_shift (routine self) (\<lambda>q. a < q \<and> q \<le> b) (- 1) rows) =
            (?s, map (\<lambda>r. if pk r = Some k then ?s
                          else case priority r of
                            None \<Rightarrow> r
                          | Some q \<Rightarrow>
                              if routine r = routine self \<and> a < q \<and> q \<le> b
                              then r\<lparr>priority := Some (q + - 1)\<rparr> else r) rows)"
      unfolding bulk_shift_def
      by (rule super_save_map [OF s ex]) (simp split: option.splits)
    moreover have "(\<lambda>r. if pk r = Some k then ?s
                          else case priority r of
                            None \<Rightarrow> r
                          | Some q \<Rightarrow>
                              if routine r = routine self \<and> a < q \<and> q \<le> b
                              then r\<lparr>priority := Some (q + - 1)\<rparr> else r)
        = (\<lambda>r. if pk r = Some k then ?s
                          else case priority r of
                            None \<Rightarrow> r
                          | Some q \<Rightarrow>
                              if routine r = routine self \<and> b \<le> q \<and> q < a
                              then r\<lparr>priority := Some (q + 1)\<rparr>
                              else if routine r = routine self \<and> a < q \<and> q \<le> b
                              then r\<lparr>priority := Some (q - 1)\<rparr>
                              else r)"
      using 2 by (auto simp: fun_eq_iff split: option.splits)
    ultimately show ?thesis
      using assms 2 by (simp add: save_def Let_def)
  next
    case 3
    have "(\<lambda>r. if pk r = Some k then ?s
                          else case priority r of
                            None \<Rightarrow> r
                          | Some q \<Rightarrow>
                              if routine r = routine self \<and> b \<le> q \<and> q < a
                              then r\<lparr>priority := Some (q + 1)\<rparr>
                              else if routine r = routine self \<and> a < q \<and> q \<le> b
                              then r\<lparr>priority := Some (q - 1)\<rparr>
                              else r) = (\<lambda>r. if pk r = Some k then ?s else r)"
      using 3 by (auto simp: fun_eq_iff split: option.splits)
    then show ?thesis
      using save_unchanged [OF assms(1,2,3), of st] assms 3 by simp
  qed
qed

section \<open>Moves across routines and moves to the end\<close>

lemma filter_routine_bulk_shift_other:
  "S \<noteq> R \<Longrightarrow> filter (\<lambda>r. routine r = S) (bulk_shift R sel d rows) = filter (\<lambda>r. routine r = S) rows"
  by (induction rows) (auto simp: bulk_shift_Cons split: option.splits)

lemma aggregate_max_bulk_shift_other:
  "S \<noteq> R \<Longrightarrow> aggregate_max S (bulk_shift R sel d rows) = aggregate_max S rows"
  by (simp add: aggregate_max_def filter_routine_bulk_shift_other)

lemma save_across:
  assumes "pk self = Some k" and "objects_get k rows = Some old"
    and "routine old \<noteq> routine self" and "priority old = Some a"
  shows "save st self rows =
           Inr (case priority self of
                  None \<Rightarrow> (capitalize_title st self)
                             \<lparr>priority := Some (or_zero (aggregate_max (routine self) rows) + 1)\<rparr>
                | Some p \<Rightarrow> capitalize_title st self,
                map (\<lambda>r. if pk r = Some k
                          then (case priority self of
                                  None \<Rightarrow> (capitalize_title st self)
                                    \<lparr>priority := Some (or_zero (aggregate_max (routine self) rows) + 1)\<rparr>
                                | Some p \<Rightarrow> capitalize_title st self)
                          else case priority r of
                            None \<Rightarrow> r
                          | Some q \<Rightarrow>
                              if routine r = routine old \<and> a < q
                              then r\<lparr>priority := Some (q - 1)\<rparr>
                              else if routine r = routine self
                                      \<and> (case priority self of None \<Rightarrow> False | Some p \<Rightarrow> p \<le> q)
                              then r\<lparr>priority := Some (q + 1)\<rparr>
                              else r)
                    rows)"
proof -
  have ex: "\<exists>r \<in> set rows. pk r = Some k"
    using objects_get_SomeD [OF assms(2)] by blast
  let ?c = "capitalize_title st self"
  let ?rows1 = "bulk_shift (routine old) (\<lambda>q. a < q) (- 1) rows"
  show ?thesis
  proof (cases "priority self")
    case None
    let ?s = "?c\<lparr>priority := Some (or_zero (aggregate_max (routine self) rows) + 1)\<rparr>"
    have s: "pk ?s = Some k" by (simp add: assms)
    have "super_save ?s ?rows1 =
            (?s, map (\<lambda>r. if pk r = Some k then ?s
                          else case priority r of
                            None \<Rightarrow> r
                          | Some q \<Rightarrow>
                              if routine r = routine old \<and> a < q
                              then r\<lparr>priority := Some (q + - 1)\<rparr> else r) rows)"
      unfolding bulk_shift_def
      by (rule super_save_map [OF s ex]) (simp split: option.splits)
    then show ?thesis
      using assms None
      by (auto simp add: save_def Let_def aggregate_max_bulk_shift_other [OF assms(3) [symmetric]]
            split: option.splits)
  next
    case (Some p)
    have s: "pk ?c = Some k" by (simp add: assms)
    have "bulk_shift (routine self) (\<lambda>q. p \<le> q) 1 ?rows1 =
            map (\<lambda>r. case priority r of
                            None \<Rightarrow> r
                          | Some q \<Rightarrow>
                              if routine r = routine old \<and> a < q
                              then r\<lparr>priority := Some (q - 1)\<rparr>
                              else if routine r = routine self \<and> p \<le> q
                              then r\<lparr>priority := Some (q + 1)\<rparr>
                              else r) rows"
      using assms(3) by (auto simp: bulk_shift_def split: option.splits)
    then have "super_save ?c (bulk_shift (routine self) (\<lambda>q. p \<le> q) 1 ?rows1) =
            (?c, map (\<lambda>r. if pk r = Some k then ?c
                          else case priority r of
                            None \<Rightarrow> r
                          | Some q \<Rightarrow>
                              if routine r = routine old \<and> a < q
                              then r\<lparr>priority := Some (q - 1)\<rparr>
                              else if routine r = routine self \<and> p \<le> q
                              then r\<lparr>priority := Some (q + 1)\<rparr>
                              else r) rows)"
      using super_save_map [OF s ex, of "\<lambda>r. case priority r of
                            None \<Rightarrow> r
                          | Some q \<Rightarrow>
                              if routine r = routine old \<and> a < q
                              then r\<lparr>priority := Some (q - 1)\<rparr>
                              else if routine r = routine self \<and> p \<le> q
                              then r\<lparr>priority := Some (q + 1)\<rparr>
                              else r"]
      by (simp split: option.splits)
    then show ?thesis
      using assms Some by (auto simp add: save_def Let_def split: option.splits)
  qed
qed

lemma save_reorder_absent_eq:
  assumes "pk self = Some k" and "objects_get k rows = Some old"
    and "routine old = routine self" and "priority old = Some a" and "priority self = None"
    and "a < or_zero (aggregate_max (routine self) rows) + 1"
  shows "save st self rows =
           save st (self\<lparr>priority := Some (or_zero (aggregate_max (routine self) rows) + 1)\<rparr>) rows"
proof -
  have "capitalize_title st (self\<lparr>priority := Some m\<rparr>) = (capitalize_title st self)\<lparr>priority := Some m\<rparr>" for m
    by (simp add: capitalize_title_def)
  then show ?thesis
    using assms by (simp add: save_def Let_def)
qed

lemma aggregate_max_ge:
  assumes "r \<in> set rows" and "routine r = R" and "priority r = Some a"
  shows "a \<le> or_zero (aggregate_max R rows)"
proof -
  let ?S = "{q. Some q \<in> set (priorities R rows)}"
  have mem: "a \<in> ?S"
    using assms by (force simp: priorities_def image_iff)
  have fin: "finite ?S"
  proof -
    have "?S \<subseteq> the ` set (priorities R rows)" by force
    then show ?thesis by (rule finite_subset) simp
  qed
  from mem fin have "a \<le> Max ?S" by (rule Max_ge [rotated])
  moreover from mem have "aggregate_max R rows = Some (Max ?S)"
    by (auto simp: aggregate_max_eq)
  ultimately show ?thesis by (simp add: or_zero_def)
qed

section \<open>Dense lists under insertion, removal and moves\<close>

lemma dense_list_noNone: "dense_list ps \<Longrightarrow> None \<notin> set ps"
  by (auto simp: dense_list_def)

lemma dense_list_range:
  "dense_list ps \<Longrightarrow> Some q \<in> set ps \<longleftrightarrow> 1 \<le> q \<and> q \<le> int (length ps)"
  by (auto simp: dense_list_def)

lemma dense_list_snoc:
  assumes "dense_list ps"
  shows "dense_list (ps @ [Some (int (length ps) + 1)])"
proof -
  have "map (shift_opt (\<lambda>q. int (length ps) + 1 \<le> q) 1) ps = ps"
  proof (rule map_idI)
    fix x assume x: "x \<in> set ps"
    with assms obtain q where q: "x = Some q"
      using dense_list_noNone by (metis option.exhaust)
    with x assms have "q \<le> int (length ps)" by (simp add: dense_list_range)
    with q show "shift_opt (\<lambda>q. int (length ps) + 1 \<le> q) 1 x = x"
      by (simp add: shift_opt_Some_in)
  qed
  with dense_list_insert [OF assms, of "int (length ps) + 1"] show ?thesis by simp
qed

lemma dense_list_Cons_swap: "dense_list (u @ x # v) = dense_list (x # u @ v)"
  by (rule dense_list_mset) simp

lemma dense_list_middle: "dense_list (u @ x # v) = dense_list ((u @ v) @ [x])"
  by (rule dense_list_mset) simp

lemma dense_list_move_up:
  assumes d: "dense_list (u @ Some a # v)" and lo: "1 \<le> b" and ba: "b < a"
  shows "dense_list (map (shift_opt (\<lambda>q. b \<le> q \<and> q < a) 1) u @ Some b
                       # map (shift_opt (\<lambda>q. b \<le> q \<and> q < a) 1) v)"
proof -
  let ?f = "shift_opt (\<lambda>q. b \<le> q \<and> q < a) 1"
  let ?del = "shift_opt (\<lambda>q. a < q) (- 1)"
  let ?ins = "shift_opt (\<lambda>q. b \<le> q) 1"
  from d have d': "dense_list (Some a # u @ v)" by (simp add: dense_list_Cons_swap)
  then have a_notin: "Some a \<notin> set (u @ v)" by (simp add: dense_list_def)
  from d have "Some a \<in> set (u @ Some a # v)" by simp
  with d have a_hi: "a \<le> int (length (u @ v)) + 1"
    by (simp add: dense_list_range del: set_append)
  have eq: "map ?f (u @ v) = map ?ins (map ?del (u @ v))"
  proof (simp only: map_map, rule map_cong [OF refl])
    fix x assume "x \<in> set (u @ v)"
    with a_notin have "x \<noteq> Some a" by blast
    then show "?f x = (?ins \<circ> ?del) x"
      using ba by (cases x) (auto simp: shift_opt_Some_in)
  qed
  have "dense_list (map ?ins (map ?del (u @ v)) @ [Some b])"
    by (rule dense_list_insert [OF dense_list_remove [OF d'] lo]) (use ba a_hi in simp)
  then have "dense_list (map ?f (u @ v) @ [Some b])" by (simp only: eq)
  then show ?thesis by (simp add: dense_list_middle)
qed

lemma dense_list_move_down:
  assumes d: "dense_list (u @ Some a # v)" and ab: "a < b" and hi: "b \<le> int (length (u @ Some a # v))"
  shows "dense_list (map (shift_opt (\<lambda>q. a < q \<and> q \<le> b) (- 1)) u @ Some b
                       # map (shift_opt (\<lambda>q. a < q \<and> q \<le> b) (- 1)) v)"
proof -
  let ?f = "shift_opt (\<lambda>q. a < q \<and> q \<le> b) (- 1)"
  let ?del = "shift_opt (\<lambda>q. a < q) (- 1)"
  let ?ins = "shift_opt (\<lambda>q. b \<le> q) 1"
  from d have d': "dense_list (Some a # u @ v)" by (simp add: dense_list_Cons_swap)
  then have a_notin: "Some a \<notin> set (u @ v)" by (simp add: dense_list_def)
  from d have "Some a \<in> set (u @ Some a # v)" by simp
  with d have a_lo: "1 \<le> a"
    by (simp add: dense_list_range del: set_append)
  have eq: "map ?f (u @ v) = map ?ins (map ?del (u @ v))"
  proof (simp only: map_map, rule map_cong [OF refl])
    fix x assume "x \<in> set (u @ v)"
    with a_notin have "x \<noteq> Some a" by blast
    then show "?f x = (?ins \<circ> ?del) x"
      using ab by (cases x) (auto simp: shift_opt_Some_in)
  qed
  have "dense_list (map ?ins (map ?del (u @ v)) @ [Some b])"
    by (rule dense_list_insert [OF dense_list_remove [OF d']]) (use ab a_lo hi in simp_all)
  then have "dense_list (map ?f (u @ v) @ [Some b])" by (simp only: eq)
  then show ?thesis by (simp add: dense_list_middle)
qed

lemma dense_or_zero_max:
  assumes "dense R rows"
  shows "or_zero (aggregate_max R rows) = int (count_items R rows)"
proof -
  let ?ps = "priorities R rows"
  let ?N = "int (length ?ps)"
  from assms have d: "dense_list ?ps" by (simp only: dense_iff)
  have S: "{q. Some q \<in> set ?ps} = {1 .. ?N}"
    by (rule set_eqI) (simp add: dense_list_range [OF d])
  have len: "count_items R rows = length ?ps"
    by (simp add: count_items_def priorities_def)
  have agg: "aggregate_max R rows = (if {1 .. ?N} = {} then None else Some (Max {1 .. ?N}))"
    by (simp only: aggregate_max_eq S)
  show ?thesis
  proof (cases "length ?ps = 0")
    case True
    then have "{1 .. ?N} = {}" by simp
    with agg have "aggregate_max R rows = None" by simp
    with True show ?thesis by (simp add: len or_zero_def)
  next
    case False
    then have pos: "1 \<le> ?N" by linarith
    then have ne: "{1 .. ?N} \<noteq> {}" by (simp only: atLeastatMost_empty_iff) simp
    have "Max {1 .. ?N} = ?N"
      by (rule Max_eqI) (use pos in auto)
    with agg ne have "aggregate_max R rows = Some ?N" by simp
    then show ?thesis by (simp add: len or_zero_def)
  qed
qed

section \<open>Dense routines under the table operations\<close>

lemma dense_list_move:
  assumes d: "dense_list (u @ Some a # v)" and lo: "1 \<le> b"
    and hi: "b \<le> int (length (u @ Some a # v))"
  shows "dense_list (map (move_opt a b) u @ Some b # map (move_opt a b) v)"
proof -
  consider "b < a" | "a < b" | "a = b" by linarith
  then show ?thesis
  proof cases
    case 1
    then have "move_opt a b = shift_opt (\<lambda>q. b \<le> q \<and> q < a) 1"
      by (auto simp: fun_eq_iff move_opt_def shift_opt_def split: option.splits)
    with dense_list_move_up [OF d lo 1] show ?thesis by simp
  next
    case 2
    then have "move_opt a b = shift_opt (\<lambda>q. a < q \<and> q \<le> b) (- 1)"
      by (auto simp: fun_eq_iff move_opt_def shift_opt_def split: option.splits)
    with dense_list_move_down [OF d 2 hi] show ?thesis by simp
  next
    case 3
    then have "move_opt a b = (\<lambda>po. po)"
      by (auto simp: fun_eq_iff move_opt_def split: option.splits)
    with d 3 show ?thesis by simp
  qed
qed

lemma priorities_map:
  assumes "\<And>r. r \<in> set xs \<Longrightarrow> routine (g r) = routine r"
    and "\<And>r. r \<in> set xs \<Longrightarrow> routine r = S \<Longrightarrow> priority (g r) = f (priority r)"
  shows "priorities S (map g xs) = map f (priorities S xs)"
  using assms by (induction xs) auto

lemma map_replace_split:
  assumes "\<forall>r \<in> set xs. pk r \<noteq> Some k" "\<forall>r \<in> set ys. pk r \<noteq> Some k" "pk old = Some k"
  shows "map (\<lambda>r. if pk r = Some k then s else g r) (xs @ old # ys) = map g xs @ s # map g ys"
  using assms by simp

lemma count_items_length: "count_items R rows = length (priorities R rows)"
  by (simp add: count_items_def priorities_def)

lemma dense_append_table:
  assumes "dense R rows" and "routine s = R" and "priority s = Some (int (count_items R rows) + 1)"
  shows "dense R (rows @ [s])"
  using assms dense_list_snoc [of "priorities R rows"]
  by (simp add: dense_iff count_items_length)

lemma dense_insert_table:
  assumes "dense R rows" and "routine s = R" and "priority s = Some P"
    and "1 \<le> P" and "P \<le> int (count_items R rows) + 1"
  shows "dense R (bulk_shift R (\<lambda>q. P \<le> q) 1 rows @ [s])"
  using assms dense_list_insert [of "priorities R rows" P]
  by (simp add: dense_iff count_items_length priorities_bulk_shift)

lemma dense_reorder_table:
  assumes k: "keyed rows" and old: "old \<in> set rows" "pk old = Some k"
    and R: "routine old = R" "routine s = R" and a: "priority old = Some a"
    and b: "priority s = Some b" and d: "dense R rows"
    and range: "1 \<le> b" "b \<le> int (count_items R rows)"
  shows "dense R (map (\<lambda>r. if pk r = Some k then s
                          else case priority r of
                            None \<Rightarrow> r
                          | Some q \<Rightarrow>
                              if routine r = R \<and> b \<le> q \<and> q < a
                              then r\<lparr>priority := Some (q + 1)\<rparr>
                              else if routine r = R \<and> a < q \<and> q \<le> b
                              then r\<lparr>priority := Some (q - 1)\<rparr>
                              else r)
                    rows)"
proof -
  let ?g = "\<lambda>r. case priority r of
                            None \<Rightarrow> r
                          | Some q \<Rightarrow>
                              if routine r = R \<and> b \<le> q \<and> q < a
                              then r\<lparr>priority := Some (q + 1)\<rparr>
                              else if routine r = R \<and> a < q \<and> q \<le> b
                              then r\<lparr>priority := Some (q - 1)\<rparr>
                              else r"
  from k old obtain xs ys where split: "rows = xs @ old # ys"
    and nx: "\<forall>r \<in> set xs. pk r \<noteq> Some k" and ny: "\<forall>r \<in> set ys. pk r \<noteq> Some k"
    by (rule keyed_split)
  have pm: "priorities R (map ?g zs) = map (move_opt a b) (priorities R zs)" for zs
    by (rule priorities_map) (auto simp: move_opt_def split: option.splits)
  have "dense_list (priorities R xs @ Some a # priorities R ys)"
    using d R a by (simp add: dense_iff split)
  moreover have "b \<le> int (length (priorities R xs @ Some a # priorities R ys))"
    using range R a by (simp add: count_items_length split)
  ultimately have "dense_list (map (move_opt a b) (priorities R xs) @ Some b
                                 # map (move_opt a b) (priorities R ys))"
    using range(1) by (intro dense_list_move)
  then show ?thesis
    unfolding split map_replace_split [OF nx ny old(2)]
    using R b by (simp add: dense_iff pm)
qed

lemma dense_remove_table:
  assumes k: "keyed rows" and old: "old \<in> set rows" "pk old = Some k"
    and R: "routine old = R" and a: "priority old = Some a" and d: "dense R rows"
  shows "dense R (bulk_shift R (\<lambda>q. a < q) (- 1) (filter (\<lambda>r. pk r \<noteq> Some k) rows))"
    and "int (count_items R (bulk_shift R (\<lambda>q. a < q) (- 1) (filter (\<lambda>r. pk r \<noteq> Some k) rows)))
           = int (count_items R rows) - 1"
proof -
  from k old obtain xs ys where split: "rows = xs @ old # ys"
    and nx: "\<forall>r \<in> set xs. pk r \<noteq> Some k" and ny: "\<forall>r \<in> set ys. pk r \<noteq> Some k"
    by (rule keyed_split)
  have fl: "filter (\<lambda>r. pk r \<noteq> Some k) rows = xs @ ys"
    using nx ny old(2) by (simp add: split)
  have "dense_list (priorities R xs @ Some a # priorities R ys)"
    using d R a by (simp add: dense_iff split)
  then have "dense_list (Some a # priorities R xs @ priorities R ys)"
    by (simp only: dense_list_Cons_swap)
  then have "dense_list (map (shift_opt (\<lambda>q. a < q) (- 1)) (priorities R xs @ priorities R ys))"
    by (rule dense_list_remove)
  then show "dense R (bulk_shift R (\<lambda>q. a < q) (- 1) (filter (\<lambda>r. pk r \<noteq> Some k) rows))"
    by (simp add: fl dense_iff priorities_bulk_shift)
  show "int (count_items R (bulk_shift R (\<lambda>q. a < q) (- 1) (filter (\<lambda>r. pk r \<noteq> Some k) rows)))
           = int (count_items R rows) - 1"
    unfolding fl using R by (simp add: count_items_length priorities_bulk_shift split)
qed

lemma dense_across_table:
  fixes c :: "int \<Rightarrow> bool"
  assumes k: "keyed rows" and old: "old \<in> set rows" "pk old = Some k"
    and R: "routine old = R1" "routine s = R2" "R1 \<noteq> R2" and a: "priority old = Some a"
  defines "rows' \<equiv> map (\<lambda>r. if pk r = Some k then s
                          else case priority r of
                            None \<Rightarrow> r
                          | Some q \<Rightarrow>
                              if routine r = R1 \<and> a < q
                              then r\<lparr>priority := Some (q - 1)\<rparr>
                              else if routine r = R2 \<and> c q
                              then r\<lparr>priority := Some (q + 1)\<rparr>
                              else r)
                    rows"
  shows "dense R1 rows \<Longrightarrow> dense R1 rows'"
    and "int (count_items R1 rows') = int (count_items R1 rows) - 1"
    and "dense R2 rows \<Longrightarrow> priority s = Some P \<Longrightarrow> 1 \<le> P
           \<Longrightarrow> P \<le> int (count_items R2 rows) + 1
           \<Longrightarrow> (\<And>q. 1 \<le> q \<Longrightarrow> q \<le> int (count_items R2 rows) \<Longrightarrow> c q = (P \<le> q))
           \<Longrightarrow> dense R2 rows'"
    and "int (count_items R2 rows') = int (count_items R2 rows) + 1"
proof -
  let ?g = "\<lambda>r. case priority r of
                            None \<Rightarrow> r
                          | Some q \<Rightarrow>
                              if routine r = R1 \<and> a < q
                              then r\<lparr>priority := Some (q - 1)\<rparr>
                              else if routine r = R2 \<and> c q
                              then r\<lparr>priority := Some (q + 1)\<rparr>
                              else r"
  from k old obtain xs ys where split: "rows = xs @ old # ys"
    and nx: "\<forall>r \<in> set xs. pk r \<noteq> Some k" and ny: "\<forall>r \<in> set ys. pk r \<noteq> Some k"
    by (rule keyed_split)
  have rows': "rows' = map ?g xs @ s # map ?g ys"
    unfolding rows'_def split by (rule map_replace_split [OF nx ny old(2)])
  have p1: "priorities R1 (map ?g zs) = map (shift_opt (\<lambda>q. a < q) (- 1)) (priorities R1 zs)" for zs
    by (rule priorities_map) (use R(3) in \<open>auto simp: shift_opt_def split: option.splits\<close>)
  have p2: "priorities R2 (map ?g zs) = map (shift_opt c 1) (priorities R2 zs)" for zs
    by (rule priorities_map) (use R(3) in \<open>auto simp: shift_opt_def split: option.splits\<close>)
  show "int (count_items R1 rows') = int (count_items R1 rows) - 1"
    using R by (simp add: rows' count_items_length p1 split)
  show "int (count_items R2 rows') = int (count_items R2 rows) + 1"
    using R by (simp add: rows' count_items_length p2 split)
  {
    assume d: "dense R1 rows"
    have "dense_list (priorities R1 xs @ Some a # priorities R1 ys)"
      using d R a by (simp add: dense_iff split)
    then have "dense_list (Some a # priorities R1 xs @ priorities R1 ys)"
      by (simp only: dense_list_Cons_swap)
    then have "dense_list (map (shift_opt (\<lambda>q. a < q) (- 1)) (priorities R1 xs @ priorities R1 ys))"
      by (rule dense_list_remove)
    then show "dense R1 rows'"
      using R by (simp add: rows' dense_iff p1)
  }
  {
    assume d: "dense R2 rows" and P: "priority s = Some P" "1 \<le> P"
      "P \<le> int (count_items R2 rows) + 1"
      and c: "\<And>q. 1 \<le> q \<Longrightarrow> q \<le> int (count_items R2 rows) \<Longrightarrow> c q = (P \<le> q)"
    let ?ps = "priorities R2 xs @ priorities R2 ys"
    have ps: "priorities R2 rows = ?ps"
      using R by (simp add: split)
    have dl: "dense_list ?ps"
      using d by (simp add: dense_iff ps)
    have eq: "map (shift_opt c 1) ?ps = map (shift_opt (\<lambda>q. P \<le> q) 1) ?ps"
    proof (rule map_cong [OF refl])
      fix x assume x: "x \<in> set ?ps"
      show "shift_opt c 1 x = shift_opt (\<lambda>q. P \<le> q) 1 x"
      proof (cases x)
        case None
        then show ?thesis by simp
      next
        case (Some q)
        with x dl have "1 \<le> q" "q \<le> int (length ?ps)"
          by (simp_all only: dense_list_range)
        then have "c q = (P \<le> q)"
          by (intro c) (simp_all add: count_items_length ps)
        with Some show ?thesis by (simp add: shift_opt_Some_in)
      qed
    qed
    have "dense_list (map (shift_opt c 1) ?ps @ [Some P])"
      unfolding eq
      by (rule dense_list_insert [OF dl P(2)]) (use P(3) in \<open>simp add: count_items_length ps\<close>)
    then have "dense_list (map (shift_opt c 1) (priorities R2 xs) @ Some P
                             # map (shift_opt c 1) (priorities R2 ys))"
      by (simp add: dense_list_middle)
    then show "dense R2 rows'"
      using R P(1) by (simp add: rows' dense_iff p2)
  }
qed

section \<open>Deletion, and what density says about single rows\<close>

lemma delete_eq:
  assumes "pk self = Some k" and "priority self = Some p"
  shows "delete self rows =
           Inr (bulk_shift (routine self) (\<lambda>q. p < q) (- 1) (filter (\<lambda>r. pk r \<noteq> Some k) rows))"
  using assms by (simp add: delete_def super_delete_def)

lemma keyed_pk: "keyed rows \<Longrightarrow> r \<in> set rows \<Longrightarrow> \<exists>k. pk r = Some k"
  by (cases "pk r") (force simp: keyed_def)+

lemma dense_priority_Some:
  assumes "dense R rows" and "r \<in> set rows" and "routine r = R"
  shows "\<exists>q. priority r = Some q \<and> 1 \<le> q \<and> q \<le> int (count_items R rows)"
proof -
  from assms(2,3) have mem: "priority r \<in> set (priorities R rows)"
    by (simp add: priorities_def)
  from assms(1) have d: "dense_list (priorities R rows)" by (simp only: dense_iff)
  from mem dense_list_noNone [OF d] have "priority r \<noteq> None" by metis
  then obtain q where q: "priority r = Some q" by blast
  with mem have "Some q \<in> set (priorities R rows)" by simp
  then have "1 \<le> q \<and> q \<le> int (length (priorities R rows))"
    by (simp only: dense_list_range [OF d])
  with q show ?thesis by (simp add: count_items_length)
qed

lemma dense_priority_inj:
  assumes k: "keyed rows" and d: "dense R rows"
    and r: "r \<in> set rows" "routine r = R" and s: "s \<in> set rows" "routine s = R"
    and ne: "pk r \<noteq> pk s"
  shows "priority r \<noteq> priority s"
proof -
  from keyed_pk [OF k s(1)] obtain j where j: "pk s = Some j" by blast
  from k s(1) j obtain xs ys where split: "rows = xs @ s # ys"
    by (rule keyed_split)
  from d have "distinct (priorities R xs @ priority s # priorities R ys)"
    using s(2) by (simp add: dense_iff dense_list_def split)
  then have notin: "priority s \<notin> set (priorities R xs)" "priority s \<notin> set (priorities R ys)"
    by auto
  from r(1) ne have "r \<in> set xs \<or> r \<in> set ys" by (auto simp: split)
  with r(2) have "priority r \<in> set (priorities R xs) \<or> priority r \<in> set (priorities R ys)"
    by (auto simp: priorities_def)
  with notin show ?thesis by auto
qed

section \<open>A blank priority on an update within the routine\<close>

lemma objects_get_keyed:
  assumes "objects_get k rows = Some old"
  shows "old \<in> set rows" and "pk old = Some k"
  using objects_get_SomeD [OF assms] by simp_all

lemma save_reorder_absent:
  assumes k: "keyed rows" and get: "objects_get k rows = Some old" and pk: "pk self = Some k"
    and R: "routine old = routine self" and a: "priority old = Some a"
    and none: "priority self = None" and d: "dense (routine self) rows"
  shows "save st self rows =
           Inr ((capitalize_title st self)
                  \<lparr>priority := Some (int (count_items (routine self) rows) + 1)\<rparr>,
                map (\<lambda>r. if pk r = Some k
                          then (capitalize_title st self)
                                 \<lparr>priority := Some (int (count_items (routine self) rows) + 1)\<rparr>
                          else case priority r of
                            None \<Rightarrow> r
                          | Some q \<Rightarrow>
                              if routine r = routine self \<and> a < q
                              then r\<lparr>priority := Some (q - 1)\<rparr> else r)
                    rows)"
proof -
  let ?N = "int (count_items (routine self) rows)"
  have mx: "or_zero (aggregate_max (routine self) rows) = ?N"
    by (rule dense_or_zero_max [OF d])
  from dense_priority_Some [OF d objects_get_keyed(1) [OF get] R] a
  have aN: "a \<le> ?N" by simp
  have c: "capitalize_title st (self\<lparr>priority := Some (?N + 1)\<rparr>)
             = (capitalize_title st self)\<lparr>priority := Some (?N + 1)\<rparr>"
    by (simp add: capitalize_title_def)
  have "save st self rows = save st (self\<lparr>priority := Some (?N + 1)\<rparr>) rows"
    using save_reorder_absent_eq [OF pk get R a none, of st] aN by (simp add: mx)
  also have "\<dots> = Inr ((capitalize_title st self)\<lparr>priority := Some (?N + 1)\<rparr>,
                map (\<lambda>r. if pk r = Some k
                          then (capitalize_title st self)\<lparr>priority := Some (?N + 1)\<rparr>
                          else case priority r of
                            None \<Rightarrow> r
                          | Some q \<Rightarrow>
                              if routine r = routine self \<and> ?N + 1 \<le> q \<and> q < a
                              then r\<lparr>priority := Some (q + 1)\<rparr>
                              else if routine r = routine self \<and> a < q \<and> q \<le> ?N + 1
                              then r\<lparr>priority := Some (q - 1)\<rparr>
                              else r)
                    rows)"
  proof -
    have h1: "pk (self\<lparr>priority := Some (?N + 1)\<rparr>) = Some k" by (simp add: pk)
    have h3: "routine old = routine (self\<lparr>priority := Some (?N + 1)\<rparr>)" by (simp add: R)
    have h5: "priority (self\<lparr>priority := Some (?N + 1)\<rparr>) = Some (?N + 1)" by simp
    have u: "routine (self\<lparr>priority := Some (?N + 1)\<rparr>) = routine self" by simp
    show ?thesis
      using save_reorder [OF h1 get h3 a h5, of st, unfolded c u] .
  qed
  also have "map (\<lambda>r. if pk r = Some k
                          then (capitalize_title st self)\<lparr>priority := Some (?N + 1)\<rparr>
                          else case priority r of
                            None \<Rightarrow> r
                          | Some q \<Rightarrow>
                              if routine r = routine self \<and> ?N + 1 \<le> q \<and> q < a
                              then r\<lparr>priority := Some (q + 1)\<rparr>
                              else if routine r = routine self \<and> a < q \<and> q \<le> ?N + 1
                              then r\<lparr>priority := Some (q - 1)\<rparr>
                              else r)
                    rows
      = map (\<lambda>r. if pk r = Some k
                          then (capitalize_title st self)\<lparr>priority := Some (?N + 1)\<rparr>
                          else case priority r of
                            None \<Rightarrow> r
                          | Some q \<Rightarrow>
                              if routine r = routine self \<and> a < q
                              then r\<lparr>priority := Some (q - 1)\<rparr> else r)
                    rows"
  proof (rule map_cong [OF refl])
    fix r assume r: "r \<in> set rows"
    show "(if pk r = Some k
                          then (capitalize_title st self)\<lparr>priority := Some (?N + 1)\<rparr>
                          else case priority r of
                            None \<Rightarrow> r
                          | Some q \<Rightarrow>
                              if routine r = routine self \<and> ?N + 1 \<le> q \<and> q < a
                              then r\<lparr>priority := Some (q + 1)\<rparr>
                              else if routine r = routine self \<and> a < q \<and> q \<le> ?N + 1
                              then r\<lparr>priority := Some (q - 1)\<rparr>
                              else r)
      = (if pk r = Some k
                          then (capitalize_title st self)\<lparr>priority := Some (?N + 1)\<rparr>
                          else case priority r of
                            None \<Rightarrow> r
                          | Some q \<Rightarrow>
                              if routine r = routine self \<and> a < q
                              then r\<lparr>priority := Some (q - 1)\<rparr> else r)"
    proof (cases "routine r = routine self")
      case True
      from dense_priority_Some [OF d r True] obtain q where "priority r = Some q" "q \<le> ?N"
        by blast
      with aN show ?thesis by simp
    next
      case False
      then show ?thesis by (simp split: option.splits)
    qed
  qed
  finally show ?thesis .
qed

section \<open>Saving the saved instance again\<close>

lemma objects_get_map:
  assumes "\<And>r. pk (h r) = pk r"
  shows "objects_get k (map h rows) = map_option h (objects_get k rows)"
  unfolding objects_get_def by (induction rows) (simp_all add: assms)

lemma keyed_map:
  assumes "\<And>r. pk (h r) = pk r"
  shows "keyed (map h rows) = keyed rows"
proof -
  have "map pk (map h rows) = map pk rows" by (simp add: assms)
  then show ?thesis unfolding keyed_def by (simp only:)
qed

lemma keyed_unique:
  assumes "keyed rows" and "r \<in> set rows" and "s \<in> set rows" and "pk r = pk s"
  shows "r = s"
proof -
  from assms(1) have "distinct (map pk rows)" by (simp add: keyed_def)
  then have "inj_on pk (set rows)" by (simp add: distinct_map)
  with assms(2,3,4) show ?thesis by (auto dest: inj_onD)
qed

section \<open>Rows of other routines\<close>

lemma filter_map_frame:
  assumes "\<And>r. r \<in> set rows \<Longrightarrow> routine r = S \<Longrightarrow> h r = r"
    and "\<And>r. r \<in> set rows \<Longrightarrow> routine r \<noteq> S \<Longrightarrow> routine (h r) \<noteq> S"
  shows "filter (\<lambda>r. routine r = S) (map h rows) = filter (\<lambda>r. routine r = S) rows"
  using assms by (induction rows) auto

lemma save_frame:
  assumes res: "save st self rows = Inr (x, rows')"
    and S: "S \<noteq> routine self"
    and own: "\<forall>old \<in> set rows. pk old = pk self \<longrightarrow> S \<noteq> routine old"
  shows "filter (\<lambda>r. routine r = S) rows' = filter (\<lambda>r. routine r = S) rows"
proof (cases "pk self")
  case None
  show ?thesis
  proof (cases "priority self")
    case n: None
    from res S show ?thesis
      unfolding save_create_absent [OF None n] by auto
  next
    case (Some P)
    from res S show ?thesis
      unfolding save_create_at [OF None Some]
      by (auto simp: filter_routine_bulk_shift_other)
  qed
next
  case (Some k)
  have own': "pk r \<noteq> Some k" if "r \<in> set rows" "routine r = S" for r
    using own that Some by auto
  show ?thesis
  proof (cases "objects_get k rows")
    case None
    from res S show ?thesis
      unfolding save_missing [OF Some None] by auto
  next
    case get: (Some old)
    note old = objects_get_keyed [OF get]
    from old own Some have So: "S \<noteq> routine old" by auto
    have frame: "filter (\<lambda>r. routine r = S) (map (\<lambda>r. if pk r = Some k then y else g r) rows)
                   = filter (\<lambda>r. routine r = S) rows"
      if "routine y \<noteq> S" "\<And>r. routine r = S \<Longrightarrow> g r = r" "\<And>r. routine (g r) = routine r"
      for y g
      by (rule filter_map_frame) (use that own' in auto)
    show ?thesis
    proof (cases "routine old = routine self")
      case False
      show ?thesis
      proof (cases "priority old")
        case None
        with res Some get False show ?thesis by (simp add: save_def Let_def)
      next
        case a: (Some a)
        from res [unfolded save_across [OF Some get False a]]
        have rows': "rows' = map (\<lambda>r. if pk r = Some k then x
                          else case priority r of
                            None \<Rightarrow> r
                          | Some q \<Rightarrow>
                              if routine r = routine old \<and> a < q
                              then r\<lparr>priority := Some (q - 1)\<rparr>
                              else if routine r = routine self
                                      \<and> (case priority self of None \<Rightarrow> False | Some p \<Rightarrow> p \<le> q)
                              then r\<lparr>priority := Some (q + 1)\<rparr>
                              else r) rows"
          and x: "routine x = routine self"
          by (auto split: option.splits)
        show ?thesis
          unfolding rows'
          by (rule frame) (use S So x in \<open>auto split: option.splits\<close>)
      qed
    next
      case True
      show ?thesis
      proof (cases "priority old")
        case None
        show ?thesis
        proof (cases "priority self")
          case n: None
          have e: "priority old = priority self" by (simp add: None n)
          from res [unfolded save_unchanged [OF Some get True e]]
          have rows': "rows' = map (\<lambda>r. if pk r = Some k then x else r) rows"
            and x: "routine x = routine self"
            by auto
          show ?thesis
            unfolding rows' by (rule frame) (use S x in auto)
        next
          case b: (Some b)
          with res Some get True None show ?thesis by (simp add: save_def Let_def)
        qed
      next
        case a: (Some a)
        have shifted: "save st y rows = Inr (x, rows') \<Longrightarrow> pk y = Some k \<Longrightarrow> routine y = routine self
                         \<Longrightarrow> priority y = Some b
                         \<Longrightarrow> filter (\<lambda>r. routine r = S) rows' = filter (\<lambda>r. routine r = S) rows" for y b
        proof -
          assume r: "save st y rows = Inr (x, rows')" and y: "pk y = Some k" "routine y = routine self"
            "priority y = Some b"
          have t: "routine old = routine y" by (simp add: True y)
          from r [unfolded save_reorder [OF y(1) get t a y(3)]]
          have rows': "rows' = map (\<lambda>r. if pk r = Some k then x
                          else case priority r of
                            None \<Rightarrow> r
                          | Some q \<Rightarrow>
                              if routine r = routine y \<and> b \<le> q \<and> q < a
                              then r\<lparr>priority := Some (q + 1)\<rparr>
                              else if routine r = routine y \<and> a < q \<and> q \<le> b
                              then r\<lparr>priority := Some (q - 1)\<rparr>
                              else r) rows"
            and x: "routine x = routine self"
            using y(2) by auto
          show ?thesis
            unfolding rows'
            by (rule frame) (use S x y(2) in \<open>auto split: option.splits\<close>)
        qed
        show ?thesis
        proof (cases "priority self")
          case n: None
          have "a < or_zero (aggregate_max (routine self) rows) + 1"
            using aggregate_max_ge [OF old(1) True a] by simp
          from res [unfolded save_reorder_absent_eq [OF Some get True a n this]]
          show ?thesis by (rule shifted) (simp_all add: Some)
        next
          case b: (Some b)
          from res Some refl b show ?thesis by (rule shifted)
        qed
      qed
    qed
  qed
qed

lemma delete_frame:
  assumes res: "delete self rows = Inr rows'"
    and S: "S \<noteq> routine self"
    and own: "\<forall>old \<in> set rows. pk old = pk self \<longrightarrow> S \<noteq> routine old"
  shows "filter (\<lambda>r. routine r = S) rows' = filter (\<lambda>r. routine r = S) rows"
proof -
  from res obtain k p where k: "pk self = Some k" and p: "priority self = Some p"
    by (auto simp: delete_def super_delete_def split: option.splits)
  have "filter (\<lambda>r. routine r = S) (filter (\<lambda>r. pk r \<noteq> Some k) rows) = filter (\<lambda>r. routine r = S) rows"
    using own k by (auto intro!: filter_cong)
  with res S show ?thesis
    unfolding delete_eq [OF k p] by (auto simp: filter_routine_bulk_shift_other)
qed

section \<open>Dense routines after a write\<close>

lemma dense_after_create:
  assumes "pk self = None" and "dense (routine self) rows"
    and "case priority self of
           None \<Rightarrow> True
         | Some P \<Rightarrow> 1 \<le> P \<and> P \<le> int (count_items (routine self) rows) + 1"
  shows "\<exists>x rows'. save st self rows = Inr (x, rows') \<and> dense (routine self) rows'"
proof (cases "priority self")
  case None
  let ?x = "(capitalize_title st self)
              \<lparr>pk := Some (new_pk rows),
               priority := Some (or_zero (aggregate_max (routine self) rows) + 1)\<rparr>"
  have "dense (routine self) (rows @ [?x])"
    by (rule dense_append_table [OF assms(2)]) (simp_all add: dense_or_zero_max [OF assms(2)])
  with save_create_absent [OF assms(1) None, of st rows] show ?thesis by blast
next
  case (Some P)
  let ?x = "(capitalize_title st self)\<lparr>pk := Some (new_pk rows)\<rparr>"
  have "dense (routine self) (bulk_shift (routine self) (\<lambda>q. P \<le> q) 1 rows @ [?x])"
    by (rule dense_insert_table [OF assms(2)]) (use assms(3) Some in simp_all)
  with save_create_at [OF assms(1) Some, of st rows] show ?thesis by blast
qed

lemma dense_after_reorder:
  assumes "keyed rows" and "objects_get k rows = Some old" and "pk self = Some k"
    and "routine old = routine self" and "priority self = Some b"
    and "dense (routine self) rows"
    and "1 \<le> b" and "b \<le> int (count_items (routine self) rows)"
  shows "\<exists>x rows'. save st self rows = Inr (x, rows') \<and> dense (routine self) rows'"
proof -
  note old = objects_get_keyed [OF assms(2)]
  from dense_priority_Some [OF assms(6) old(1) assms(4)] obtain a where a: "priority old = Some a"
    by blast
  have "dense (routine self)
          (map (\<lambda>r. if pk r = Some k then capitalize_title st self
                          else case priority r of
                            None \<Rightarrow> r
                          | Some q \<Rightarrow>
                              if routine r = routine self \<and> b \<le> q \<and> q < a
                              then r\<lparr>priority := Some (q + 1)\<rparr>
                              else if routine r = routine self \<and> a < q \<and> q \<le> b
                              then r\<lparr>priority := Some (q - 1)\<rparr>
                              else r)
                    rows)"
    by (rule dense_reorder_table [OF assms(1) old assms(4) _ a _ assms(6,7,8)])
      (simp_all add: assms(5))
  with save_reorder [OF assms(3,2,4) a assms(5), of st] show ?thesis by blast
qed

lemma dense_after_delete:
  assumes "keyed rows" and "self \<in> set rows" and "dense (routine self) rows"
  shows "\<exists>rows'. delete self rows = Inr rows' \<and> dense (routine self) rows'"
proof -
  from keyed_pk [OF assms(1,2)] obtain k where k: "pk self = Some k" by blast
  from dense_priority_Some [OF assms(3,2) refl] obtain p where p: "priority self = Some p"
    by blast
  have "dense (routine self)
          (bulk_shift (routine self) (\<lambda>q. p < q) (- 1) (filter (\<lambda>r. pk r \<noteq> Some k) rows))"
    by (rule dense_remove_table(1) [OF assms(1,2) k refl p assms(3)])
  with delete_eq [OF k p, of rows] show ?thesis by blast
qed

lemma dense_after_across:
  assumes "keyed rows" and "objects_get k rows = Some old" and "pk self = Some k"
    and "routine old \<noteq> routine self"
    and "dense (routine old) rows" and "dense (routine self) rows"
    and ok: "case priority self of
               None \<Rightarrow> True
             | Some P \<Rightarrow> 1 \<le> P \<and> P \<le> int (count_items (routine self) rows) + 1"
  shows "\<exists>x rows'. save st self rows = Inr (x, rows')
           \<and> dense (routine old) rows' \<and> dense (routine self) rows'"
proof -
  let ?N2 = "int (count_items (routine self) rows)"
  let ?x = "case priority self of
                None \<Rightarrow> (capitalize_title st self)\<lparr>priority := Some (?N2 + 1)\<rparr>
              | Some P \<Rightarrow> capitalize_title st self"
  let ?c = "\<lambda>q. case priority self of None \<Rightarrow> False | Some P \<Rightarrow> P \<le> q"
  note old = objects_get_keyed [OF assms(2)]
  from dense_priority_Some [OF assms(5) old(1) refl] obtain p where p: "priority old = Some p"
    by blast
  have mx: "or_zero (aggregate_max (routine self) rows) = ?N2"
    by (rule dense_or_zero_max [OF assms(6)])
  have rx: "routine ?x = routine self"
    by (simp split: option.splits)
  note s = save_across [OF assms(3,2,4) p, of st, unfolded mx]
  note t = dense_across_table [where c = ?c, OF assms(1) old refl rx assms(4) p]
  have "\<exists>P. priority ?x = Some P \<and> 1 \<le> P \<and> P \<le> ?N2 + 1
          \<and> (\<forall>q. 1 \<le> q \<longrightarrow> q \<le> ?N2 \<longrightarrow> ?c q = (P \<le> q))"
    using ok by (cases "priority self") auto
  then obtain P where P: "priority ?x = Some P" "1 \<le> P" "P \<le> ?N2 + 1"
    "\<And>q. 1 \<le> q \<Longrightarrow> q \<le> ?N2 \<Longrightarrow> ?c q = (P \<le> q)"
    by blast
  from t(1) [OF assms(5)] t(3) [OF assms(6) P] s show ?thesis
    by blast
qed

section \<open>The claims of the specification\<close>

text \<open>
  Claim C8 (inconsistent-snapshot fallback).  When the instance carries a primary key that no
  persisted row has, \<open>objects.get\<close> raises \<open>DoesNotExist\<close> and \<open>save\<close> falls back to the
  plain row write: it returns without error, every row of the table is left as it was, and the
  instance is written with the routine, priority and other fields the caller supplied (the
  title after the clean-up that opens every \<open>save\<close>).
\<close>

theorem save_missing_row_plain_write:
  assumes "pk self = Some k" and "\<forall>r \<in> set rows. pk r \<noteq> Some k"
  shows "save strip_title self rows =
           Inr (capitalize_title strip_title self, rows @ [capitalize_title strip_title self])
         \<and> pk (capitalize_title strip_title self) = pk self
         \<and> routine (capitalize_title strip_title self) = routine self
         \<and> priority (capitalize_title strip_title self) = priority self
         \<and> description (capitalize_title strip_title self) = description self
         \<and> is_active (capitalize_title strip_title self) = is_active self
         \<and> title (capitalize_title strip_title self) =
             (if title self = [] then [] else strip_title (title self))"
proof -
  from assms(2) have "objects_get k rows = None"
    by (simp only: objects_get_None)
  with assms(1) show ?thesis
    by (simp add: save_missing) (simp add: capitalize_title_def)
qed

theorem save_missing_row_plain_write_witness:
  "pk (item 9 1 ''E'' 2) = Some 9
   \<and> objects_get 9 planner = None
   \<and> save id (item 9 1 ''E'' 2) planner = Inr (item 9 1 ''E'' 2, planner @ [item 9 1 ''E'' 2])"
  using save_missing_row_plain_write [of "item 9 1 ''E'' 2" 9 planner id]
  by (simp add: item_def planner_def capitalize_title_def objects_get_def)

text \<open>
  Claim C4 (same-routine move, shift ranges).  An update that keeps the routine and names a
  priority \<open>b\<close>, on an item persisted at priority \<open>a\<close>: the rows of the routine whose
  priority lies in \<open>[b, a)\<close> are incremented (a non-empty range only when \<open>b < a\<close>), the
  rows whose priority lies in \<open>(a, b]\<close> are decremented (non-empty only when \<open>a < b\<close>), the
  row of the item is overwritten with the instance, which carries priority \<open>b\<close>, and no other
  row changes.  When \<open>b = a\<close> both ranges are empty and the table differs in the row of the
  item only.
\<close>

theorem save_same_routine_shift_ranges:
  assumes "pk self = Some k" and "objects_get k rows = Some old"
    and "routine old = routine self" and "priority old = Some a" and "priority self = Some b"
  shows "save strip_title self rows =
           Inr (capitalize_title strip_title self,
                map (\<lambda>r. if pk r = Some k then capitalize_title strip_title self
                          else case priority r of
                            None \<Rightarrow> r
                          | Some q \<Rightarrow>
                              if routine r = routine self \<and> b \<le> q \<and> q < a
                              then r\<lparr>priority := Some (q + 1)\<rparr>
                              else if routine r = routine self \<and> a < q \<and> q \<le> b
                              then r\<lparr>priority := Some (q - 1)\<rparr>
                              else r)
                    rows)
         \<and> priority (capitalize_title strip_title self) = Some b
         \<and> (a = b \<longrightarrow>
              save strip_title self rows =
                Inr (capitalize_title strip_title self,
                     map (\<lambda>r. if pk r = Some k then capitalize_title strip_title self else r) rows))"
  using save_reorder [OF assms, of strip_title] save_unchanged [OF assms(1,2,3), of strip_title] assms(4,5)
  by simp

theorem save_same_routine_shift_ranges_witness:
  "pk (item 3 1 ''C'' 1) = Some 3
   \<and> objects_get 3 planner = Some (item 3 1 ''C'' 3)
   \<and> routine (item 3 1 ''C'' 3) = routine (item 3 1 ''C'' 1)
   \<and> priority (item 3 1 ''C'' 3) = Some 3
   \<and> priority (item 3 1 ''C'' 1) = Some 1
   \<and> save id (item 3 1 ''C'' 1) planner =
       Inr (item 3 1 ''C'' 1,
            [item 1 1 ''A'' 2, item 2 1 ''B'' 3, item 3 1 ''C'' 1, item 4 1 ''D'' 4,
             item 5 2 ''X'' 1])"
  using save_same_routine_shift_ranges [of "item 3 1 ''C'' 1" 3 planner "item 3 1 ''C'' 3" 3 1 id]
  by (simp add: item_def planner_def capitalize_title_def objects_get_def)

text \<open>
  Claim C2 (insert shifts the tail).  In a routine that holds its items at the priorities
  \<open>1..N\<close>, creating an item with the explicit priority \<open>P\<close>, \<open>1 \<le> P \<le> N\<close>, stores the
  new item at \<open>P\<close>, adds one to the priority of every row of the routine that was at \<open>P\<close> or
  later, and leaves the rows before \<open>P\<close> (and every other row) as they were; the routine is
  dense afterwards.
\<close>

theorem create_at_priority_shifts_tail:
  assumes "pk self = None" and "priority self = Some P"
    and "dense (routine self) rows"
    and "1 \<le> P" and "P \<le> int (count_items (routine self) rows)"
  shows "save strip_title self rows =
           Inr ((capitalize_title strip_title self)\<lparr>pk := Some (new_pk rows)\<rparr>,
                map (\<lambda>r. case priority r of
                            None \<Rightarrow> r
                          | Some q \<Rightarrow>
                              if routine r = routine self \<and> P \<le> q
                              then r\<lparr>priority := Some (q + 1)\<rparr> else r)
                    rows
                @ [(capitalize_title strip_title self)\<lparr>pk := Some (new_pk rows)\<rparr>])
         \<and> priority ((capitalize_title strip_title self)\<lparr>pk := Some (new_pk rows)\<rparr>) = Some P
         \<and> dense (routine self)
              (map (\<lambda>r. case priority r of
                            None \<Rightarrow> r
                          | Some q \<Rightarrow>
                              if routine r = routine self \<and> P \<le> q
                              then r\<lparr>priority := Some (q + 1)\<rparr> else r)
                    rows
                @ [(capitalize_title strip_title self)\<lparr>pk := Some (new_pk rows)\<rparr>])"
proof -
  let ?x = "(capitalize_title strip_title self)\<lparr>pk := Some (new_pk rows)\<rparr>"
  have "dense (routine self) (bulk_shift (routine self) (\<lambda>q. P \<le> q) 1 rows @ [?x])"
    by (rule dense_insert_table [OF assms(3)]) (use assms in simp_all)
  then show ?thesis
    using save_create_at [OF assms(1,2), of strip_title rows] assms(2)
    by (simp add: bulk_shift_def)
qed

theorem create_at_priority_shifts_tail_witness:
  "pk (draft 1 ''E'' (Some 2)) = None
   \<and> dense 1 planner
   \<and> save id (draft 1 ''E'' (Some 2)) planner =
       Inr (item 6 1 ''E'' 2,
            [item 1 1 ''A'' 1, item 2 1 ''B'' 3, item 3 1 ''C'' 4, item 4 1 ''D'' 5,
             item 5 2 ''X'' 1, item 6 1 ''E'' 2])"
proof -
  have r: "routine (draft 1 ''E'' (Some 2)) = 1" by (simp add: draft_def)
  have h1: "pk (draft 1 ''E'' (Some 2)) = None" by (simp add: draft_def)
  have h2: "priority (draft 1 ''E'' (Some 2)) = Some 2" by (simp add: draft_def)
  have d: "dense 1 planner" by code_simp
  have c: "count_items 1 planner = 4" by code_simp
  have n: "new_pk planner = 6" by code_simp
  have h3: "dense (routine (draft 1 ''E'' (Some 2))) planner" by (simp only: r d)
  have h5: "2 \<le> int (count_items (routine (draft 1 ''E'' (Some 2))) planner)" by (simp only: r c)
  have "save id (draft 1 ''E'' (Some 2)) planner =
       Inr (item 6 1 ''E'' 2,
            [item 1 1 ''A'' 1, item 2 1 ''B'' 3, item 3 1 ''C'' 4, item 4 1 ''D'' 5,
             item 5 2 ''X'' 1, item 6 1 ''E'' 2])"
    using create_at_priority_shifts_tail [OF h1 h2 h3 _ h5, of id, unfolded n]
    by (simp add: draft_def item_def planner_def capitalize_title_def)
  with h1 d show ?thesis by simp
qed

text \<open>
  Claim C3 (append on absent priority).  Creating an item without a priority stores it with
  the largest priority found in its routine plus one, and with priority \<open>1\<close> when the routine
  has no row with a priority, in particular when it has no item; the rows already in the
  table are left as they were.
\<close>

theorem create_without_priority_appends:
  assumes "pk self = None" and "priority self = None"
  shows "save strip_title self rows =
           Inr ((capitalize_title strip_title self)
                  \<lparr>pk := Some (new_pk rows),
                   priority :=
                     Some (if {q. \<exists>r \<in> set rows. routine r = routine self \<and> priority r = Some q} = {}
                           then 1
                           else Max {q. \<exists>r \<in> set rows. routine r = routine self
                                           \<and> priority r = Some q} + 1)\<rparr>,
                rows @ [(capitalize_title strip_title self)
                  \<lparr>pk := Some (new_pk rows),
                   priority :=
                     Some (if {q. \<exists>r \<in> set rows. routine r = routine self \<and> priority r = Some q} = {}
                           then 1
                           else Max {q. \<exists>r \<in> set rows. routine r = routine self
                                           \<and> priority r = Some q} + 1)\<rparr>])
         \<and> (count_items (routine self) rows = 0 \<longrightarrow>
              {q. \<exists>r \<in> set rows. routine r = routine self \<and> priority r = Some q} = {})"
proof -
  let ?S = "{q. \<exists>r \<in> set rows. routine r = routine self \<and> priority r = Some q}"
  have S: "{q. Some q \<in> set (priorities (routine self) rows)} = ?S"
    by (auto simp: priorities_def image_iff)
  have m: "or_zero (aggregate_max (routine self) rows) + 1 = (if ?S = {} then 1 else Max ?S + 1)"
  proof (cases "?S = {}")
    case True
    then have "aggregate_max (routine self) rows = None"
      unfolding aggregate_max_eq S by simp
    with True show ?thesis by (simp only: or_zero_def option.case if_True) simp
  next
    case False
    then have "aggregate_max (routine self) rows = Some (Max ?S)"
      unfolding aggregate_max_eq S by simp
    with False show ?thesis by (simp only: or_zero_def option.case if_False) simp
  qed
  have e: "count_items (routine self) rows = 0 \<longrightarrow> ?S = {}"
    by (auto simp: count_items_def filter_empty_conv)
  show ?thesis
    unfolding save_create_absent [OF assms, of strip_title rows] m
    using e by (simp only: simp_thms)
qed

theorem create_without_priority_appends_witness:
  "pk (draft 1 ''E'' None) = None
   \<and> priority (draft 1 ''E'' None) = None
   \<and> save id (draft 1 ''E'' None) planner = Inr (item 6 1 ''E'' 5, planner @ [item 6 1 ''E'' 5])
   \<and> save id (draft 3 ''E'' None) planner = Inr (item 6 3 ''E'' 1, planner @ [item 6 3 ''E'' 1])"
proof -
  have n: "new_pk planner = 6" by code_simp
  have r1: "routine (draft 1 ''E'' None) = 1" and r3: "routine (draft 3 ''E'' None) = 3"
    by (simp_all add: draft_def)
  have S1: "{q. \<exists>r \<in> set planner. routine r = 1 \<and> priority r = Some q} = {1, 2, 3, 4}"
    by (auto simp: planner_def item_def)
  have S3: "{q. \<exists>r \<in> set planner. routine r = 3 \<and> priority r = Some q} = {}"
    by (auto simp: planner_def item_def)
  have p: "pk (draft R ''E'' None) = None" "priority (draft R ''E'' None) = None" for R
    by (simp_all add: draft_def)
  have "save id (draft 1 ''E'' None) planner = Inr (item 6 1 ''E'' 5, planner @ [item 6 1 ''E'' 5])"
    using create_without_priority_appends [OF p, of id 1 planner, unfolded r1 S1 n]
    by (simp add: draft_def item_def capitalize_title_def)
  moreover
  have "save id (draft 3 ''E'' None) planner = Inr (item 6 3 ''E'' 1, planner @ [item 6 3 ''E'' 1])"
    using create_without_priority_appends [OF p, of id 3 planner, unfolded r3 S3 n]
    by (simp add: draft_def item_def capitalize_title_def)
  ultimately show ?thesis by (simp add: p)
qed

text \<open>
  Claim C7 (deletion compaction).  Deleting an item whose instance agrees with its persisted
  row, at priority \<open>p\<close> in a routine that is dense over \<open>1..N\<close>: the row is removed, every
  remaining row of the routine with a priority above \<open>p\<close> loses one, the rows below \<open>p\<close> and
  the rows of other routines stay as they were, the routine is dense over \<open>1..N-1\<close>
  afterwards, and two remaining rows of the routine keep their relative order.
\<close>

theorem delete_compacts_routine:
  assumes "keyed rows" and "self \<in> set rows" and "priority self = Some p"
    and "dense (routine self) rows"
  shows
    "let close_gap = (\<lambda>r. case priority r of
                              None \<Rightarrow> r
                            | Some q \<Rightarrow>
                                if routine r = routine self \<and> p < q
                                then r\<lparr>priority := Some (q - 1)\<rparr> else r);
         rows' = map close_gap (filter (\<lambda>r. pk r \<noteq> pk self) rows)
     in delete self rows = Inr rows'
        \<and> dense (routine self) rows'
        \<and> int (count_items (routine self) rows') = int (count_items (routine self) rows) - 1
        \<and> (\<forall>r1 \<in> set rows. \<forall>r2 \<in> set rows. \<forall>q1 q2.
              pk r1 \<noteq> pk self \<and> pk r2 \<noteq> pk self
              \<and> routine r1 = routine self \<and> routine r2 = routine self
              \<and> priority r1 = Some q1 \<and> priority r2 = Some q2 \<and> q1 < q2
              \<longrightarrow> (\<exists>q1' q2'. priority (close_gap r1) = Some q1'
                     \<and> priority (close_gap r2) = Some q2' \<and> q1' < q2'))"
proof -
  from keyed_pk [OF assms(1,2)] obtain k where k: "pk self = Some k" by blast
  let ?g = "\<lambda>r. case priority r of
                              None \<Rightarrow> r
                            | Some q \<Rightarrow>
                                if routine r = routine self \<and> p < q
                                then r\<lparr>priority := Some (q - 1)\<rparr> else r"
  let ?rows' = "map ?g (filter (\<lambda>r. pk r \<noteq> pk self) rows)"
  have eq: "?rows' = bulk_shift (routine self) (\<lambda>q. p < q) (- 1) (filter (\<lambda>r. pk r \<noteq> Some k) rows)"
    by (auto simp: bulk_shift_def k split: option.splits)
  have 1: "delete self rows = Inr ?rows'"
    unfolding eq by (rule delete_eq [OF k assms(3)])
  have 2: "dense (routine self) ?rows'"
    unfolding eq by (rule dense_remove_table(1) [OF assms(1,2) k refl assms(3,4)])
  have 3: "int (count_items (routine self) ?rows') = int (count_items (routine self) rows) - 1"
    unfolding eq by (rule dense_remove_table(2) [OF assms(1,2) k refl assms(3,4)])
  have 4: "\<exists>q1' q2'. priority (?g r1) = Some q1' \<and> priority (?g r2) = Some q2' \<and> q1' < q2'"
    if r1: "r1 \<in> set rows" "pk r1 \<noteq> pk self" "routine r1 = routine self" "priority r1 = Some q1"
      and r2: "r2 \<in> set rows" "pk r2 \<noteq> pk self" "routine r2 = routine self" "priority r2 = Some q2"
      and lt: "q1 < q2" for r1 r2 q1 q2
  proof -
    have "priority r1 \<noteq> priority self"
      by (rule dense_priority_inj [OF assms(1,4) r1(1,3) assms(2) refl r1(2)])
    moreover have "priority r2 \<noteq> priority self"
      by (rule dense_priority_inj [OF assms(1,4) r2(1,3) assms(2) refl r2(2)])
    ultimately have "q1 \<noteq> p" "q2 \<noteq> p"
      using r1(4) r2(4) assms(3) by auto
    then show ?thesis
      using r1(3,4) r2(3,4) lt by auto
  qed
  from 1 2 3 4 show ?thesis
    unfolding Let_def by blast
qed

theorem delete_compacts_routine_witness:
  "keyed planner
   \<and> dense 1 planner
   \<and> delete (item 2 1 ''B'' 2) planner =
       Inr [item 1 1 ''A'' 1, item 3 1 ''C'' 2, item 4 1 ''D'' 3, item 5 2 ''X'' 1]"
proof -
  have k: "keyed planner" by code_simp
  have m: "item 2 1 ''B'' 2 \<in> set planner" by (simp add: planner_def)
  have p: "priority (item 2 1 ''B'' 2) = Some 2" by (simp add: item_def)
  have r: "routine (item 2 1 ''B'' 2) = 1" by (simp add: item_def)
  have d: "dense 1 planner" by code_simp
  have d': "dense (routine (item 2 1 ''B'' 2)) planner" by (simp only: r d)
  have "delete (item 2 1 ''B'' 2) planner =
       Inr [item 1 1 ''A'' 1, item 3 1 ''C'' 2, item 4 1 ''D'' 3, item 5 2 ''X'' 1]"
    using delete_compacts_routine [OF k m p d']
    by (simp add: Let_def) (simp add: item_def planner_def)
  with k d show ?thesis by simp
qed

text \<open>
  Claim C9 (same-routine move to an absent priority).  Updating an item of a dense routine
  \<open>1..N\<close> with the priority left blank and the routine unchanged: the maximum is taken over
  all rows of the routine, the item's own row among them, so the item is stored at \<open>N + 1\<close>;
  every row of the routine that was after the item's old slot loses one; the priorities of
  the routine are then \<open>1, ..., N - 1\<close> and \<open>N + 1\<close>, none twice, with \<open>N\<close> vacant, and the
  routine is not dense.
\<close>

theorem update_to_absent_priority_leaves_gap:
  assumes "keyed rows" and "objects_get k rows = Some old" and "pk self = Some k"
    and "routine old = routine self" and "priority old = Some a"
    and "priority self = None" and "dense (routine self) rows"
  shows
    "let N = int (count_items (routine self) rows);
         x = (capitalize_title strip_title self)\<lparr>priority := Some (N + 1)\<rparr>;
         rows' = map (\<lambda>r. if pk r = Some k then x
                          else case priority r of
                            None \<Rightarrow> r
                          | Some q \<Rightarrow>
                              if routine r = routine self \<and> a < q
                              then r\<lparr>priority := Some (q - 1)\<rparr> else r)
                    rows
     in save strip_title self rows = Inr (x, rows')
        \<and> distinct (priorities (routine self) rows')
        \<and> set (priorities (routine self) rows') = Some ` ({1 .. N - 1} \<union> {N + 1})
        \<and> Some N \<notin> set (priorities (routine self) rows')
        \<and> \<not> dense (routine self) rows'"
proof -
  let ?R = "routine self"
  let ?N = "int (count_items ?R rows)"
  let ?x = "(capitalize_title strip_title self)\<lparr>priority := Some (?N + 1)\<rparr>"
  let ?g = "\<lambda>r. case priority r of
                            None \<Rightarrow> r
                          | Some q \<Rightarrow>
                              if routine r = ?R \<and> a < q
                              then r\<lparr>priority := Some (q - 1)\<rparr> else r"
  let ?rows' = "map (\<lambda>r. if pk r = Some k then ?x else ?g r) rows"
  let ?f = "shift_opt (\<lambda>q. a < q) (- 1)"
  note old = objects_get_keyed [OF assms(2)]
  have 1: "save strip_title self rows = Inr (?x, ?rows')"
    by (rule save_reorder_absent [OF assms])
  from assms(1) old obtain xs ys where split: "rows = xs @ old # ys"
    and nx: "\<forall>r \<in> set xs. pk r \<noteq> Some k" and ny: "\<forall>r \<in> set ys. pk r \<noteq> Some k"
    by (rule keyed_split)
  have rows': "?rows' = map ?g xs @ ?x # map ?g ys"
    unfolding split by (rule map_replace_split [OF nx ny old(2)])
  have pm: "priorities ?R (map ?g zs) = map ?f (priorities ?R zs)" for zs
    by (rule priorities_map) (auto simp: shift_opt_def split: option.splits)
  let ?w = "priorities ?R xs @ priorities ?R ys"
  have ps: "priorities ?R rows = priorities ?R xs @ Some a # priorities ?R ys"
    using assms(4,5) by (simp add: split)
  have ps': "priorities ?R ?rows' = map ?f (priorities ?R xs) @ Some (?N + 1) # map ?f (priorities ?R ys)"
    by (simp add: rows' pm)
  have N: "?N = int (length ?w) + 1"
    by (simp add: count_items_length ps)
  have "dense_list (priorities ?R xs @ Some a # priorities ?R ys)"
    using assms(7) by (simp only: dense_iff ps)
  then have "dense_list (Some a # ?w)"
    by (simp only: dense_list_Cons_swap)
  then have dw: "dense_list (map ?f ?w)"
    by (rule dense_list_remove)
  then have dist: "distinct (map ?f ?w)" and st: "set (map ?f ?w) = Some ` {1 .. ?N - 1}"
    by (simp_all add: dense_list_def N)
  have new_notin: "Some (?N + 1) \<notin> set (map ?f ?w)"
    unfolding st by auto
  have 2: "distinct (priorities ?R ?rows')"
    using dist new_notin by (simp add: ps')
  have "set (priorities ?R ?rows') = insert (Some (?N + 1)) (set (map ?f ?w))"
    by (simp add: ps')
  then have 3: "set (priorities ?R ?rows') = Some ` ({1 .. ?N - 1} \<union> {?N + 1})"
    unfolding st by (simp add: image_Un)
  have 4: "Some ?N \<notin> set (priorities ?R ?rows')"
    unfolding 3 by auto
  have len: "int (count_items ?R ?rows') = ?N"
    by (simp add: count_items_length ps' ps)
  have 5: "\<not> dense ?R ?rows'"
  proof
    assume "dense ?R ?rows'"
    then have "set (priorities ?R ?rows') = Some ` {1 .. ?N}"
      by (simp add: dense_def len)
    moreover have "1 \<le> ?N" by (simp add: N)
    ultimately have "Some ?N \<in> set (priorities ?R ?rows')" by simp
    with 4 show False by contradiction
  qed
  from 1 2 3 4 5 show ?thesis
    unfolding Let_def by blast
qed

theorem update_to_absent_priority_leaves_gap_witness:
  "keyed planner
   \<and> objects_get 2 planner = Some (item 2 1 ''B'' 2)
   \<and> dense 1 planner
   \<and> save id ((item 2 1 ''B'' 2)\<lparr>priority := None\<rparr>) planner =
       Inr (item 2 1 ''B'' 5,
            [item 1 1 ''A'' 1, item 2 1 ''B'' 5, item 3 1 ''C'' 2, item 4 1 ''D'' 3,
             item 5 2 ''X'' 1])"
proof -
  let ?self = "(item 2 1 ''B'' 2)\<lparr>priority := None\<rparr>"
  have k: "keyed planner" by code_simp
  have g: "objects_get 2 planner = Some (item 2 1 ''B'' 2)"
    by (simp add: objects_get_def planner_def item_def)
  have h3: "pk ?self = Some 2" by (simp add: item_def)
  have r: "routine ?self = 1" by (simp add: item_def)
  have h4: "routine (item 2 1 ''B'' 2) = routine ?self" by (simp add: item_def)
  have h5: "priority (item 2 1 ''B'' 2) = Some 2" by (simp add: item_def)
  have h6: "priority ?self = None" by simp
  have d: "dense 1 planner" by code_simp
  have c: "count_items 1 planner = 4" by code_simp
  have h7: "dense (routine ?self) planner" by (simp only: r d)
  have "save id ?self planner =
       Inr (item 2 1 ''B'' 5,
            [item 1 1 ''A'' 1, item 2 1 ''B'' 5, item 3 1 ''C'' 2, item 4 1 ''D'' 3,
             item 5 2 ''X'' 1])"
    using update_to_absent_priority_leaves_gap [OF k g h3 h4 h5 h6 h7, of id, unfolded r c Let_def]
    by (simp add: item_def planner_def capitalize_title_def)
  with k g d show ?thesis by simp
qed

text \<open>
  Claim C6 (cross-routine move).  An item persisted at priority \<open>p\<close> in a dense routine
  \<open>R1\<close> of \<open>N1\<close> items is saved with another routine \<open>R2\<close>, dense with \<open>N2\<close> items.  Every
  row of \<open>R1\<close> above \<open>p\<close> loses one and \<open>R1\<close> is dense over \<open>1..N1 - 1\<close> afterwards.  The item
  enters \<open>R2\<close> by the insert rule: with no priority it is stored at \<open>N2 + 1\<close>, the maximum of
  \<open>R2\<close> plus one, and no row of \<open>R2\<close> moves; with a priority \<open>P\<close> every row of \<open>R2\<close> at \<open>P\<close>
  or later gains one and the item is stored at \<open>P\<close>.  No other row changes.  When the new
  priority is blank or lies in \<open>1..N2 + 1\<close>, \<open>R2\<close> is dense over \<open>1..N2 + 1\<close> afterwards.
\<close>

theorem move_across_routines:
  assumes "keyed rows" and "objects_get k rows = Some old" and "pk self = Some k"
    and "routine old \<noteq> routine self" and "priority old = Some p"
    and "dense (routine old) rows" and "dense (routine self) rows"
  shows
    "let N2 = int (count_items (routine self) rows);
         x = (case priority self of
                None \<Rightarrow> (capitalize_title strip_title self)\<lparr>priority := Some (N2 + 1)\<rparr>
              | Some P \<Rightarrow> capitalize_title strip_title self);
         rows' = map (\<lambda>r. if pk r = Some k then x
                          else case priority r of
                            None \<Rightarrow> r
                          | Some q \<Rightarrow>
                              if routine r = routine old \<and> p < q
                              then r\<lparr>priority := Some (q - 1)\<rparr>
                              else if routine r = routine self
                                      \<and> (case priority self of None \<Rightarrow> False | Some P \<Rightarrow> P \<le> q)
                              then r\<lparr>priority := Some (q + 1)\<rparr>
                              else r)
                    rows
     in save strip_title self rows = Inr (x, rows')
        \<and> routine x = routine self
        \<and> dense (routine old) rows'
        \<and> int (count_items (routine old) rows') = int (count_items (routine old) rows) - 1
        \<and> int (count_items (routine self) rows') = N2 + 1
        \<and> ((case priority self of None \<Rightarrow> True | Some P \<Rightarrow> 1 \<le> P \<and> P \<le> N2 + 1)
              \<longrightarrow> dense (routine self) rows')"
proof -
  let ?N2 = "int (count_items (routine self) rows)"
  let ?x = "case priority self of
                None \<Rightarrow> (capitalize_title strip_title self)\<lparr>priority := Some (?N2 + 1)\<rparr>
              | Some P \<Rightarrow> capitalize_title strip_title self"
  let ?c = "\<lambda>q. case priority self of None \<Rightarrow> False | Some P \<Rightarrow> P \<le> q"
  let ?rows' = "map (\<lambda>r. if pk r = Some k then ?x
                          else case priority r of
                            None \<Rightarrow> r
                          | Some q \<Rightarrow>
                              if routine r = routine old \<and> p < q
                              then r\<lparr>priority := Some (q - 1)\<rparr>
                              else if routine r = routine self \<and> ?c q
                              then r\<lparr>priority := Some (q + 1)\<rparr>
                              else r)
                    rows"
  note old = objects_get_keyed [OF assms(2)]
  have mx: "or_zero (aggregate_max (routine self) rows) = ?N2"
    by (rule dense_or_zero_max [OF assms(7)])
  have rx: "routine ?x = routine self"
    by (simp split: option.splits)
  have 1: "save strip_title self rows = Inr (?x, ?rows')"
    using save_across [OF assms(3,2,4,5), of strip_title] by (simp only: mx)
  note t = dense_across_table [where c = ?c, OF assms(1) old refl rx assms(4,5)]
  have 3: "dense (routine old) ?rows'"
    by (rule t(1) [OF assms(6)])
  have 4: "int (count_items (routine old) ?rows') = int (count_items (routine old) rows) - 1"
    by (rule t(2))
  have 5: "int (count_items (routine self) ?rows') = ?N2 + 1"
    by (rule t(4))
  have 6: "dense (routine self) ?rows'"
    if ok: "case priority self of None \<Rightarrow> True | Some P \<Rightarrow> 1 \<le> P \<and> P \<le> ?N2 + 1"
  proof (cases "priority self")
    case None
    show ?thesis
    proof (rule t(3) [OF assms(7), where P = "?N2 + 1"])
      show "priority ?x = Some (?N2 + 1)" by (simp add: None)
      show "1 \<le> ?N2 + 1" by simp
      show "?N2 + 1 \<le> ?N2 + 1" by simp
      show "?c q = (?N2 + 1 \<le> q)" if "1 \<le> q" "q \<le> ?N2" for q
        using that by (simp add: None)
    qed
  next
    case (Some P)
    show ?thesis
    proof (rule t(3) [OF assms(7), where P = P])
      show "priority ?x = Some P" by (simp add: Some)
      show "1 \<le> P" "P \<le> ?N2 + 1" using ok by (simp_all add: Some)
      show "?c q = (P \<le> q)" for q by (simp add: Some)
    qed
  qed
  from 1 rx 3 4 5 6 show ?thesis
    unfolding Let_def by blast
qed

theorem move_across_routines_witness:
  "keyed planner
   \<and> objects_get 2 planner = Some (item 2 1 ''B'' 2)
   \<and> dense 1 planner \<and> dense 2 planner
   \<and> save id (item 2 2 ''B'' 1) planner =
       Inr (item 2 2 ''B'' 1,
            [item 1 1 ''A'' 1, item 2 2 ''B'' 1, item 3 1 ''C'' 2, item 4 1 ''D'' 3,
             item 5 2 ''X'' 2])"
proof -
  have k: "keyed planner" by code_simp
  have g: "objects_get 2 planner = Some (item 2 1 ''B'' 2)"
    by (simp add: objects_get_def planner_def item_def)
  have h3: "pk (item 2 2 ''B'' 1) = Some 2" by (simp add: item_def)
  have r1: "routine (item 2 1 ''B'' 2) = 1" and r2: "routine (item 2 2 ''B'' 1) = 2"
    by (simp_all add: item_def)
  have h4: "routine (item 2 1 ''B'' 2) \<noteq> routine (item 2 2 ''B'' 1)" by (simp add: item_def)
  have h5: "priority (item 2 1 ''B'' 2) = Some 2" by (simp add: item_def)
  have d1: "dense 1 planner" and d2: "dense 2 planner" by code_simp+
  have h6: "dense (routine (item 2 1 ''B'' 2)) planner" by (simp only: r1 d1)
  have h7: "dense (routine (item 2 2 ''B'' 1)) planner" by (simp only: r2 d2)
  have "save id (item 2 2 ''B'' 1) planner =
       Inr (item 2 2 ''B'' 1,
            [item 1 1 ''A'' 1, item 2 2 ''B'' 1, item 3 1 ''C'' 2, item 4 1 ''D'' 3,
             item 5 2 ''X'' 2])"
    using move_across_routines [OF k g h3 h4 h5 h6 h7, of id, unfolded Let_def]
    by (simp add: item_def planner_def capitalize_title_def)
  with k g d1 d2 show ?thesis by simp
qed

text \<open>
  Claim C5 (move round trip).  In a dense routine, an item persisted at priority \<open>A\<close> is saved
  with priority \<open>B\<close>, and the instance that save returns is saved again with priority \<open>A\<close>.
  Both saves succeed, and after the second every row other than the item's own is exactly the
  row it was before the first; the item's row is back at priority \<open>A\<close> in its routine.  So the
  priority, routine and key columns of the whole table are restored.
\<close>

theorem move_round_trip:
  assumes "keyed rows" and "objects_get k rows = Some old" and "pk self = Some k"
    and "routine old = routine self" and "priority old = Some A" and "priority self = Some B"
    and "dense (routine self) rows"
  shows
    "let s1 = capitalize_title strip_title self;
         s2 = capitalize_title strip_title (s1\<lparr>priority := Some A\<rparr>);
         rows2 = map (\<lambda>r. if pk r = Some k then s2 else r) rows
     in \<exists>rows1. save strip_title self rows = Inr (s1, rows1)
          \<and> save strip_title (s1\<lparr>priority := Some A\<rparr>) rows1 = Inr (s2, rows2)
          \<and> map priority rows2 = map priority rows
          \<and> map routine rows2 = map routine rows
          \<and> map pk rows2 = map pk rows"
proof -
  let ?R = "routine self"
  let ?s1 = "capitalize_title strip_title self"
  let ?self2 = "?s1\<lparr>priority := Some A\<rparr>"
  let ?s2 = "capitalize_title strip_title ?self2"
  let ?g1 = "\<lambda>r. case priority r of
                            None \<Rightarrow> r
                          | Some q \<Rightarrow>
                              if routine r = ?R \<and> B \<le> q \<and> q < A
                              then r\<lparr>priority := Some (q + 1)\<rparr>
                              else if routine r = ?R \<and> A < q \<and> q \<le> B
                              then r\<lparr>priority := Some (q - 1)\<rparr>
                              else r"
  let ?g2 = "\<lambda>r. case priority r of
                            None \<Rightarrow> r
                          | Some q \<Rightarrow>
                              if routine r = ?R \<and> A \<le> q \<and> q < B
                              then r\<lparr>priority := Some (q + 1)\<rparr>
                              else if routine r = ?R \<and> B < q \<and> q \<le> A
                              then r\<lparr>priority := Some (q - 1)\<rparr>
                              else r"
  let ?h1 = "\<lambda>r. if pk r = Some k then ?s1 else ?g1 r"
  let ?h2 = "\<lambda>r. if pk r = Some k then ?s2 else ?g2 r"
  let ?rows1 = "map ?h1 rows"
  let ?rows2 = "map (\<lambda>r. if pk r = Some k then ?s2 else r) rows"
  note old = objects_get_keyed [OF assms(2)]
  have pk_g1: "pk (?g1 r) = pk r" for r by (simp split: option.splits)
  have pk_h1: "pk (?h1 r) = pk r" for r
    using pk_g1 [of r] by (simp add: assms(3))
  have first: "save strip_title self rows = Inr (?s1, ?rows1)"
    by (rule save_reorder [OF assms(3,2,4,5,6)])
  have get1: "objects_get k ?rows1 = Some ?s1"
    using objects_get_map [of ?h1 k rows, OF pk_h1] old(2) by (simp add: assms(2))
  have u: "routine ?self2 = ?R" by simp
  have "save strip_title ?self2 ?rows1 = Inr (?s2, map ?h2 ?rows1)"
    using save_reorder [of ?self2 k ?rows1 ?s1 B A strip_title, OF _ get1, unfolded u]
    by (simp add: assms(3,6))
  moreover have "map ?h2 ?rows1 = ?rows2"
  proof (simp only: map_map, rule map_cong [OF refl])
    fix r assume r: "r \<in> set rows"
    show "(?h2 \<circ> ?h1) r = (if pk r = Some k then ?s2 else r)"
    proof (cases "pk r = Some k")
      case True
      then show ?thesis by (simp add: assms(3))
    next
      case False
      have "?g2 (?g1 r) = r"
      proof (cases "routine r = ?R")
        case True
        from dense_priority_Some [OF assms(7) r True] obtain q where q: "priority r = Some q"
          by blast
        have "priority r \<noteq> priority old"
          by (rule dense_priority_inj [OF assms(1,7) r True old(1) assms(4)])
            (use False old(2) in simp)
        with q assms(5) have "q \<noteq> A" by simp
        with q True show ?thesis by auto
      next
        case False
        then show ?thesis by (simp split: option.splits)
      qed
      with False pk_g1 [of r] show ?thesis by simp
    qed
  qed
  ultimately have second: "save strip_title ?self2 ?rows1 = Inr (?s2, ?rows2)"
    by (simp only:)
  have same: "priority (if pk r = Some k then ?s2 else r) = priority r
              \<and> routine (if pk r = Some k then ?s2 else r) = routine r
              \<and> pk (if pk r = Some k then ?s2 else r) = pk r" if "r \<in> set rows" for r
  proof (cases "pk r = Some k")
    case True
    with that old have "r = old" by (intro keyed_unique [OF assms(1)]) simp_all
    with True show ?thesis by (simp add: assms)
  next
    case False
    then show ?thesis by simp
  qed
  have "map priority ?rows2 = map priority rows" "map routine ?rows2 = map routine rows"
       "map pk ?rows2 = map pk rows"
    using same by (simp_all add: map_idI)
  with first second show ?thesis
    unfolding Let_def by blast
qed

theorem move_round_trip_witness:
  "keyed planner
   \<and> objects_get 3 planner = Some (item 3 1 ''C'' 3)
   \<and> dense 1 planner
   \<and> save id (item 3 1 ''C'' 1) planner =
       Inr (item 3 1 ''C'' 1,
            [item 1 1 ''A'' 2, item 2 1 ''B'' 3, item 3 1 ''C'' 1, item 4 1 ''D'' 4,
             item 5 2 ''X'' 1])
   \<and> save id (item 3 1 ''C'' 3)
        [item 1 1 ''A'' 2, item 2 1 ''B'' 3, item 3 1 ''C'' 1, item 4 1 ''D'' 4,
         item 5 2 ''X'' 1] =
       Inr (item 3 1 ''C'' 3, planner)"
proof -
  have k: "keyed planner" by code_simp
  have g: "objects_get 3 planner = Some (item 3 1 ''C'' 3)"
    by (simp add: objects_get_def planner_def item_def)
  have h3: "pk (item 3 1 ''C'' 1) = Some 3" by (simp add: item_def)
  have r: "routine (item 3 1 ''C'' 1) = 1" by (simp add: item_def)
  have h4: "routine (item 3 1 ''C'' 3) = routine (item 3 1 ''C'' 1)" by (simp add: item_def)
  have h5: "priority (item 3 1 ''C'' 3) = Some 3" by (simp add: item_def)
  have h6: "priority (item 3 1 ''C'' 1) = Some 1" by (simp add: item_def)
  have d: "dense 1 planner" by code_simp
  have h7: "dense (routine (item 3 1 ''C'' 1)) planner" by (simp only: r d)
  have c: "capitalize_title id s = s" for s by (simp add: capitalize_title_def)
  have s1: "(item 3 1 ''C'' 1)\<lparr>priority := Some 3\<rparr> = item 3 1 ''C'' 3" by (simp add: item_def)
  have first: "save id (item 3 1 ''C'' 1) planner =
       Inr (item 3 1 ''C'' 1,
            [item 1 1 ''A'' 2, item 2 1 ''B'' 3, item 3 1 ''C'' 1, item 4 1 ''D'' 4,
             item 5 2 ''X'' 1])"
    using save_reorder [OF h3 g h4 h5 h6, of id, unfolded c]
    by (simp add: item_def planner_def)
  have "map (\<lambda>r. if pk r = Some 3 then item 3 1 ''C'' 3 else r) planner = planner"
    by (simp add: planner_def item_def)
  then have "save id (item 3 1 ''C'' 3)
        [item 1 1 ''A'' 2, item 2 1 ''B'' 3, item 3 1 ''C'' 1, item 4 1 ''D'' 4,
         item 5 2 ''X'' 1] = Inr (item 3 1 ''C'' 3, planner)"
    using move_round_trip [OF k g h3 h4 h5 h6 h7, of id, unfolded Let_def c s1] first
    by auto
  with k g d first show ?thesis by simp
qed

text \<open>
  Claim C10 (per-routine frame).  Let \<open>S\<close> be a routine other than the one the instance names
  and other than the one its persisted row, if there is one, belongs to.  Then a \<open>save\<close>
  (create, update in place, move within the routine, move across routines, fallback write)
  and a \<open>delete\<close> that succeed leave the rows of \<open>S\<close> exactly as they were: no row of \<open>S\<close>
  changes in any column, none leaves and none enters.  Each bulk shift names one routine and
  changes no row outside it.
\<close>

theorem other_routines_untouched:
  "(save strip_title self rows = Inr (x, rows')
      \<and> S \<noteq> routine self \<and> (\<forall>old \<in> set rows. pk old = pk self \<longrightarrow> S \<noteq> routine old)
      \<longrightarrow> filter (\<lambda>r. routine r = S) rows' = filter (\<lambda>r. routine r = S) rows)
   \<and> (delete self rows = Inr rows''
      \<and> S \<noteq> routine self \<and> (\<forall>old \<in> set rows. pk old = pk self \<longrightarrow> S \<noteq> routine old)
      \<longrightarrow> filter (\<lambda>r. routine r = S) rows'' = filter (\<lambda>r. routine r = S) rows)
   \<and> filter (\<lambda>r. routine r \<noteq> R) (bulk_shift R sel d rows) = filter (\<lambda>r. routine r \<noteq> R) rows"
  using save_frame [of strip_title self rows x rows' S] delete_frame [of self rows rows'' S]
    filter_other_bulk_shift [of R sel d rows]
  by blast

theorem other_routines_untouched_witness:
  "save id (item 3 1 ''C'' 1) planner =
       Inr (item 3 1 ''C'' 1,
            [item 1 1 ''A'' 2, item 2 1 ''B'' 3, item 3 1 ''C'' 1, item 4 1 ''D'' 4,
             item 5 2 ''X'' 1])
   \<and> filter (\<lambda>r. routine r = 2)
        [item 1 1 ''A'' 2, item 2 1 ''B'' 3, item 3 1 ''C'' 1, item 4 1 ''D'' 4,
         item 5 2 ''X'' 1] = filter (\<lambda>r. routine r = 2) planner
   \<and> delete (item 2 1 ''B'' 2) planner =
       Inr [item 1 1 ''A'' 1, item 3 1 ''C'' 2, item 4 1 ''D'' 3, item 5 2 ''X'' 1]
   \<and> filter (\<lambda>r. routine r = 2)
        [item 1 1 ''A'' 1, item 3 1 ''C'' 2, item 4 1 ''D'' 3, item 5 2 ''X'' 1]
       = filter (\<lambda>r. routine r = 2) planner"
proof -
  let ?rows1 = "[item 1 1 ''A'' 2, item 2 1 ''B'' 3, item 3 1 ''C'' 1, item 4 1 ''D'' 4,
             item 5 2 ''X'' 1]"
  let ?rows2 = "[item 1 1 ''A'' 1, item 3 1 ''C'' 2, item 4 1 ''D'' 3, item 5 2 ''X'' 1]"
  have s: "save id (item 3 1 ''C'' 1) planner = Inr (item 3 1 ''C'' 1, ?rows1)"
    by (simp add: save_def Let_def capitalize_title_def objects_get_def super_save_def
        bulk_shift_def planner_def item_def)
  have d: "delete (item 2 1 ''B'' 2) planner = Inr ?rows2"
    by (simp add: delete_def super_delete_def bulk_shift_def planner_def item_def)
  have r1: "(2::nat) \<noteq> routine (item 3 1 ''C'' 1)" and r2: "(2::nat) \<noteq> routine (item 2 1 ''B'' 2)"
    by (simp_all add: item_def)
  have o1: "\<forall>old \<in> set planner. pk old = pk (item 3 1 ''C'' 1) \<longrightarrow> 2 \<noteq> routine old"
    by (simp add: planner_def item_def)
  have o2: "\<forall>old \<in> set planner. pk old = pk (item 2 1 ''B'' 2) \<longrightarrow> 2 \<noteq> routine old"
    by (simp add: planner_def item_def)
  have "filter (\<lambda>r. routine r = 2) ?rows1 = filter (\<lambda>r. routine r = 2) planner"
    using other_routines_untouched
      [of id "item 3 1 ''C'' 1" planner "item 3 1 ''C'' 1" ?rows1 2] s r1 o1
    by blast
  moreover
  have "filter (\<lambda>r. routine r = 2) ?rows2 = filter (\<lambda>r. routine r = 2) planner"
    using other_routines_untouched
      [of id "item 2 1 ''B'' 2" planner _ _ 2 ?rows2] d r2 o2
    by blast
  ultimately show ?thesis using s d by simp
qed

text \<open>
  Claim C1 (dense-ordering invariant), as stated: whatever single create, update or delete goes
  through \<open>save\<close> or \<open>delete\<close>, a dense routine is dense afterwards.  The code does not check
  an explicit priority against the size of the routine, so the claim fails: creating an item
  with the explicit priority \<open>9\<close> in the routine A(1), B(2), C(3), D(4) stores it at \<open>9\<close>, and
  the priorities \<open>1, 2, 3, 4, 9\<close> are not \<open>1..5\<close>.
\<close>

theorem dense_broken_by_out_of_range_create:
  "dense 1 planner
   \<and> save id (draft 1 ''E'' (Some 9)) planner =
       Inr (item 6 1 ''E'' 9, planner @ [item 6 1 ''E'' 9])
   \<and> \<not> dense 1 (planner @ [item 6 1 ''E'' 9])"
proof -
  have "dense 1 planner" by code_simp
  moreover have "save id (draft 1 ''E'' (Some 9)) planner =
       Inr (item 6 1 ''E'' 9, planner @ [item 6 1 ''E'' 9])"
    by (simp add: save_def Let_def capitalize_title_def super_save_def bulk_shift_def new_pk_def
        planner_def item_def draft_def)
  moreover have "\<not> dense 1 (planner @ [item 6 1 ''E'' 9])" by code_simp
  ultimately show ?thesis by blast
qed

text \<open>
  Claim C1, amended to the writes whose priority names a slot of the routine.  With unique
  primary keys, a routine that holds exactly the priorities \<open>1..N\<close> holds exactly
  \<open>1..new count\<close> again
  \<^item> after creating an item with the priority left blank or in \<open>1..N + 1\<close>;
  \<^item> after updating one of its items, routine unchanged, to an explicit priority in \<open>1..N\<close>;
  \<^item> after moving an item of a dense routine into another dense routine of \<open>N2\<close> items with
    the priority left blank or in \<open>1..N2 + 1\<close>: both routines are dense afterwards;
  \<^item> after deleting an item whose instance agrees with its persisted row.
  Each of these calls returns without error.
\<close>

theorem dense_kept_by_in_range_writes:
  "(pk self = None \<and> dense (routine self) rows
      \<and> (case priority self of
            None \<Rightarrow> True
          | Some P \<Rightarrow> 1 \<le> P \<and> P \<le> int (count_items (routine self) rows) + 1)
      \<longrightarrow> (\<exists>x rows'. save strip_title self rows = Inr (x, rows') \<and> dense (routine self) rows'))
   \<and> (keyed rows \<and> objects_get k rows = Some old \<and> pk self = Some k
      \<and> routine old = routine self \<and> dense (routine self) rows
      \<and> priority self = Some b \<and> 1 \<le> b \<and> b \<le> int (count_items (routine self) rows)
      \<longrightarrow> (\<exists>x rows'. save strip_title self rows = Inr (x, rows') \<and> dense (routine self) rows'))
   \<and> (keyed rows \<and> objects_get k rows = Some old \<and> pk self = Some k
      \<and> routine old \<noteq> routine self \<and> dense (routine old) rows \<and> dense (routine self) rows
      \<and> (case priority self of
            None \<Rightarrow> True
          | Some P \<Rightarrow> 1 \<le> P \<and> P \<le> int (count_items (routine self) rows) + 1)
      \<longrightarrow> (\<exists>x rows'. save strip_title self rows = Inr (x, rows')
             \<and> dense (routine old) rows' \<and> dense (routine self) rows'))
   \<and> (keyed rows \<and> self \<in> set rows \<and> dense (routine self) rows
      \<longrightarrow> (\<exists>rows'. delete self rows = Inr rows' \<and> dense (routine self) rows'))"
  using dense_after_create [of self rows strip_title]
    dense_after_reorder [of rows k old self b strip_title]
    dense_after_across [of rows k old self strip_title]
    dense_after_delete [of rows self]
  by blast

theorem dense_kept_by_in_range_writes_witness:
  "keyed planner \<and> dense 1 planner \<and> dense 2 planner
   \<and> save id (draft 1 ''E'' (Some 5)) planner = Inr (item 6 1 ''E'' 5, planner @ [item 6 1 ''E'' 5])
   \<and> dense 1 (planner @ [item 6 1 ''E'' 5])
   \<and> save id (item 3 1 ''C'' 1) planner =
       Inr (item 3 1 ''C'' 1,
            [item 1 1 ''A'' 2, item 2 1 ''B'' 3, item 3 1 ''C'' 1, item 4 1 ''D'' 4,
             item 5 2 ''X'' 1])
   \<and> dense 1 [item 1 1 ''A'' 2, item 2 1 ''B'' 3, item 3 1 ''C'' 1, item 4 1 ''D'' 4,
              item 5 2 ''X'' 1]
   \<and> save id (item 2 2 ''B'' 1) planner =
       Inr (item 2 2 ''B'' 1,
            [item 1 1 ''A'' 1, item 2 2 ''B'' 1, item 3 1 ''C'' 2, item 4 1 ''D'' 3,
             item 5 2 ''X'' 2])
   \<and> dense 1 [item 1 1 ''A'' 1, item 2 2 ''B'' 1, item 3 1 ''C'' 2, item 4 1 ''D'' 3,
              item 5 2 ''X'' 2]
   \<and> dense 2 [item 1 1 ''A'' 1, item 2 2 ''B'' 1, item 3 1 ''C'' 2, item 4 1 ''D'' 3,
              item 5 2 ''X'' 2]
   \<and> delete (item 2 1 ''B'' 2) planner =
       Inr [item 1 1 ''A'' 1, item 3 1 ''C'' 2, item 4 1 ''D'' 3, item 5 2 ''X'' 1]
   \<and> dense 1 [item 1 1 ''A'' 1, item 3 1 ''C'' 2, item 4 1 ''D'' 3, item 5 2 ''X'' 1]"
proof -
  let ?t1 = "planner @ [item 6 1 ''E'' 5]"
  let ?t2 = "[item 1 1 ''A'' 2, item 2 1 ''B'' 3, item 3 1 ''C'' 1, item 4 1 ''D'' 4,
              item 5 2 ''X'' 1]"
  let ?t3 = "[item 1 1 ''A'' 1, item 2 2 ''B'' 1, item 3 1 ''C'' 2, item 4 1 ''D'' 3,
              item 5 2 ''X'' 2]"
  let ?t4 = "[item 1 1 ''A'' 1, item 3 1 ''C'' 2, item 4 1 ''D'' 3, item 5 2 ''X'' 1]"
  have k: "keyed planner" by code_simp
  have d1: "dense 1 planner" and d2: "dense 2 planner" by code_simp+
  have c1: "count_items 1 planner = 4" and c2: "count_items 2 planner = 1" by code_simp+
  have s1: "save id (draft 1 ''E'' (Some 5)) planner = Inr (item 6 1 ''E'' 5, ?t1)"
    by (simp add: save_def Let_def capitalize_title_def super_save_def bulk_shift_def new_pk_def
        planner_def item_def draft_def)
  have s2: "save id (item 3 1 ''C'' 1) planner = Inr (item 3 1 ''C'' 1, ?t2)"
    by (simp add: save_def Let_def capitalize_title_def objects_get_def super_save_def
        bulk_shift_def planner_def item_def)
  have s3: "save id (item 2 2 ''B'' 1) planner = Inr (item 2 2 ''B'' 1, ?t3)"
    by (simp add: save_def Let_def capitalize_title_def objects_get_def super_save_def
        bulk_shift_def planner_def item_def)
  have s4: "delete (item 2 1 ''B'' 2) planner = Inr ?t4"
    by (simp add: delete_def super_delete_def bulk_shift_def planner_def item_def)
  have g3: "objects_get 3 planner = Some (item 3 1 ''C'' 3)"
    and g2: "objects_get 2 planner = Some (item 2 1 ''B'' 2)"
    by (simp_all add: objects_get_def planner_def item_def)
  have f: "pk (draft 1 ''E'' (Some 5)) = None" "routine (draft 1 ''E'' (Some 5)) = 1"
    "priority (draft 1 ''E'' (Some 5)) = Some 5"
    "pk (item i R t p) = Some i" "routine (item i R t p) = R" "priority (item i R t p) = Some p"
    for i R t p
    by (simp_all add: draft_def item_def)
  have m: "item 2 1 ''B'' 2 \<in> set planner" by (simp add: planner_def)
  have "dense 1 ?t1"
  proof -
    let ?D = "draft 1 ''E'' (Some 5)"
    have h: "pk ?D = None \<and> dense (routine ?D) planner
             \<and> (case priority ?D of
                   None \<Rightarrow> True
                 | Some P \<Rightarrow> 1 \<le> P \<and> P \<le> int (count_items (routine ?D) planner) + 1)"
      by (simp add: f d1 c1 del: One_nat_def)
    from dense_kept_by_in_range_writes [of ?D planner id 0 ?D 1] h
    obtain x rows' where "save id ?D planner = Inr (x, rows')" "dense (routine ?D) rows'"
      by blast
    with s1 show ?thesis by (simp add: f del: One_nat_def)
  qed
  moreover have "dense 1 ?t2"
  proof -
    let ?C = "item 3 1 ''C'' 1"
    have h: "keyed planner \<and> objects_get 3 planner = Some (item 3 1 ''C'' 3) \<and> pk ?C = Some 3
             \<and> routine (item 3 1 ''C'' 3) = routine ?C \<and> dense (routine ?C) planner
             \<and> priority ?C = Some 1 \<and> (1::int) \<le> 1 \<and> 1 \<le> int (count_items (routine ?C) planner)"
      by (simp add: f d1 c1 k g3 del: One_nat_def)
    from dense_kept_by_in_range_writes [of ?C planner id 3 "item 3 1 ''C'' 3" 1] h
    obtain x rows' where "save id ?C planner = Inr (x, rows')" "dense (routine ?C) rows'"
      by blast
    with s2 show ?thesis by (simp add: f del: One_nat_def)
  qed
  moreover have "dense 1 ?t3 \<and> dense 2 ?t3"
  proof -
    let ?B = "item 2 2 ''B'' 1"
    let ?old = "item 2 1 ''B'' 2"
    have h: "keyed planner \<and> objects_get 2 planner = Some ?old \<and> pk ?B = Some 2
             \<and> routine ?old \<noteq> routine ?B \<and> dense (routine ?old) planner
             \<and> dense (routine ?B) planner
             \<and> (case priority ?B of
                   None \<Rightarrow> True
                 | Some P \<Rightarrow> 1 \<le> P \<and> P \<le> int (count_items (routine ?B) planner) + 1)"
      by (simp add: f d1 d2 c2 k g2 del: One_nat_def)
    from dense_kept_by_in_range_writes [of ?B planner id 2 ?old 1] h
    obtain x rows' where "save id ?B planner = Inr (x, rows')" "dense (routine ?old) rows'"
      "dense (routine ?B) rows'"
      by blast
    with s3 show ?thesis by (simp add: f del: One_nat_def)
  qed
  moreover have "dense 1 ?t4"
  proof -
    let ?B = "item 2 1 ''B'' 2"
    have h: "keyed planner \<and> ?B \<in> set planner \<and> dense (routine ?B) planner"
      by (simp add: f d1 k m del: One_nat_def)
    from dense_kept_by_in_range_writes [of ?B planner id 2 ?B 1] h
    obtain rows' where "delete ?B planner = Inr rows'" "dense (routine ?B) rows'"
      by blast
    with s4 show ?thesis by (simp add: f del: One_nat_def)
  qed
  ultimately show ?thesis
    using k d1 d2 s1 s2 s3 s4 by simp
qed

end
